theory Spec2Isabelle
  imports Complex_Main "HOL-Library.Word"
begin

unbundle bit_operations_syntax

section \<open>JavaScript strings\<close>

text \<open>
  A JavaScript string is a sequence of UTF-16 code units; the bytes of a \<open>Uint8Array\<close>
  are 8-bit words. \<open>asc\<close> writes an ASCII literal of the source as code units; the
  Chinese literals of the source are written out code unit by code unit.
\<close>

type_synonym jstr = "16 word list"
type_synonym byte = "8 word"

definition asc :: "string \<Rightarrow> jstr" where
  "asc s = map of_char s"

text \<open>
  \<open>String.prototype.trim\<close> removes WhiteSpace and LineTerminator code units from both
  ends: TAB, LF, VT, FF, CR, SPACE, NBSP, U+1680, U+2000..U+200A, LS, PS, U+202F, U+205F,
  U+3000 and U+FEFF.
\<close>

definition isWhiteSpace :: "16 word \<Rightarrow> bool" where
  "isWhiteSpace c \<longleftrightarrow>
     c = 0x09 \<or> c = 0x0A \<or> c = 0x0B \<or> c = 0x0C \<or> c = 0x0D \<or> c = 0x20 \<or> c = 0xA0 \<or>
     c = 0x1680 \<or> (0x2000 \<le> c \<and> c \<le> 0x200A) \<or> c = 0x2028 \<or> c = 0x2029 \<or>
     c = 0x202F \<or> c = 0x205F \<or> c = 0x3000 \<or> c = 0xFEFF"

definition trim :: "jstr \<Rightarrow> jstr" where
  "trim s = rev (dropWhile isWhiteSpace (rev (dropWhile isWhiteSpace s)))"

definition startsWith :: "jstr \<Rightarrow> jstr \<Rightarrow> bool" where
  "startsWith s pat \<longleftrightarrow> take (length pat) s = pat"

fun includes_js :: "jstr \<Rightarrow> jstr \<Rightarrow> bool" where
  "includes_js [] pat \<longleftrightarrow> pat = []"
| "includes_js (c # cs) pat \<longleftrightarrow> take (length pat) (c # cs) = pat \<or> includes_js cs pat"

text \<open>\<open>chunk.split('\n')\<close>: the segments between line feeds; never the empty array.\<close>

fun split_nl :: "jstr \<Rightarrow> jstr list" where
  "split_nl [] = [[]]"
| "split_nl (c # cs) =
     (if c = 0x0A then [] # split_nl cs
      else (case split_nl cs of [] \<Rightarrow> [[c]] | l # ls \<Rightarrow> (c # l) # ls))"

text \<open>The decimal digits of a number, as the template literal prints \<open>response.status\<close>.\<close>

function decimal :: "nat \<Rightarrow> jstr" where
  "decimal n = (if n < 10 then [of_nat (48 + n)] else decimal (n div 10) @ [of_nat (48 + n mod 10)])"
  by pat_completeness auto
termination
  by (relation "measure id") auto

declare decimal.simps [simp del]

section \<open>JavaScript values and thrown values\<close>

text \<open>
  The values \<open>JSON.parse\<close> and \<open>response.json()\<close> produce, and \<open>undefined\<close>, which
  reading an absent property gives. A number carries the string \<open>Number.prototype.toString\<close>
  prints for it (so \<open>0\<close> and \<open>-0\<close> are both \<open>JNum ''0''\<close>): the double itself is never
  inspected by this code. An object is its list of own properties, read with \<open>map_of\<close>.
\<close>

datatype jsval =
    JUndefined
  | JNull
  | JBool bool
  | JNum jstr
  | JStr jstr
  | JArr "jsval list"
  | JObj "(jstr \<times> jsval) list"

text \<open>
  What a \<open>catch\<close> clause can receive: an object for which \<open>instanceof Error\<close> holds, with
  the value of its \<open>message\<close>, or any other value. The message is a string in every error
  that the engine or this code creates; the callback of the caller can throw an Error with
  any message.
\<close>

datatype thrown = JsError jsval | NonError

text \<open>
  The messages of the engine's own errors differ from engine to engine, so they are
  parameters, with \<open>JSON.parse\<close> itself: \<open>JSON_parse\<close> returns the parsed value or the
  message of the SyntaxError it throws, \<open>TypeError_message\<close> the message of the TypeError
  raised by each kind of failing operation.
\<close>

datatype type_error =
    ReadOfNullish jstr
  | NotAFunction jstr
  | NotPrimitive

record platform =
  JSON_parse :: "jstr \<Rightarrow> jstr + jsval"
  TypeError_message :: "type_error \<Rightarrow> jstr"

definition TypeError :: "platform \<Rightarrow> type_error \<Rightarrow> thrown" where
  "TypeError pf k = JsError (JStr (TypeError_message pf k))"

fun nullish :: "jsval \<Rightarrow> bool" where
  "nullish JUndefined = True"
| "nullish JNull = True"
| "nullish _ = False"

fun truthy :: "jsval \<Rightarrow> bool" where
  "truthy JUndefined = False"
| "truthy JNull = False"
| "truthy (JBool b) = b"
| "truthy (JNum r) = (r \<noteq> asc ''0'')"
| "truthy (JStr s) = (s \<noteq> [])"
| "truthy (JArr xs) = True"
| "truthy (JObj kvs) = True"

text \<open>
  \<open>v.name\<close> for a value that is neither \<open>null\<close> nor \<open>undefined\<close>, for the names this code
  reads (\<open>candidates\<close>, \<open>content\<close>, \<open>parts\<close>, \<open>text\<close>, \<open>error\<close>, \<open>message\<close>): an own
  property of an object; nothing on an array, a string, a number or a boolean, whose
  prototypes have no property of these names.
\<close>

fun property :: "jsval \<Rightarrow> jstr \<Rightarrow> jsval" where
  "property (JObj kvs) name = (case map_of kvs name of Some v \<Rightarrow> v | None \<Rightarrow> JUndefined)"
| "property _ name = JUndefined"

text \<open>\<open>v[0]\<close> for a value that is neither \<open>null\<close> nor \<open>undefined\<close>.\<close>

fun index0 :: "jsval \<Rightarrow> jsval" where
  "index0 (JArr xs) = (case xs of [] \<Rightarrow> JUndefined | x # _ \<Rightarrow> x)"
| "index0 (JStr s) = (case s of [] \<Rightarrow> JUndefined | c # _ \<Rightarrow> JStr [c])"
| "index0 (JObj kvs) = property (JObj kvs) (asc ''0'')"
| "index0 _ = JUndefined"

text \<open>\<open>v.name\<close> with no \<open>?.\<close> before it: a TypeError when \<open>v\<close> is \<open>null\<close> or \<open>undefined\<close>.\<close>

definition member :: "platform \<Rightarrow> jsval \<Rightarrow> jstr \<Rightarrow> thrown + jsval" where
  "member pf v name =
     (if nullish v then Inl (TypeError pf (ReadOfNullish name)) else Inr (property v name))"

text \<open>
  \<open>ToString\<close>, as \<open>Array.prototype.join\<close> and a template literal apply it. An array prints
  as its elements joined by commas. An object prints as \<open>[object Object]\<close> through
  \<open>Object.prototype.toString\<close>, unless it has an own property \<open>toString\<close>: that property
  is never callable here, \<open>valueOf\<close> then gives no primitive, and the conversion throws.
  \<open>join\<close> prints \<open>null\<close> and \<open>undefined\<close> elements as the empty string.
\<close>

fun toString :: "platform \<Rightarrow> jsval \<Rightarrow> thrown + jstr"
  and join :: "platform \<Rightarrow> jstr \<Rightarrow> jsval list \<Rightarrow> thrown + jstr" where
  "toString pf JUndefined = Inr (asc ''undefined'')"
| "toString pf JNull = Inr (asc ''null'')"
| "toString pf (JBool b) = Inr (if b then asc ''true'' else asc ''false'')"
| "toString pf (JNum r) = Inr r"
| "toString pf (JStr s) = Inr s"
| "toString pf (JArr xs) = join pf (asc '','') xs"
| "toString pf (JObj kvs) =
     (if map_of kvs (asc ''toString'') = None then Inr (asc ''[object Object]'')
      else Inl (TypeError pf NotPrimitive))"
| "join pf sep [] = Inr []"
| "join pf sep (x # xs) =
     (case (if nullish x then Inr [] else toString pf x) of
        Inl e \<Rightarrow> Inl e
      | Inr s \<Rightarrow>
          (case join pf sep xs of
             Inl e \<Rightarrow> Inl e
           | Inr r \<Rightarrow> Inr (s @ (if xs = [] then [] else sep) @ r)))"

section \<open>Extracting the text of a response object\<close>

text \<open>\<open>parts.map((p) => p.text)\<close> on an array: the first \<open>null\<close> element throws.\<close>

fun map_text :: "platform \<Rightarrow> jsval list \<Rightarrow> thrown + jsval list" where
  "map_text pf [] = Inr []"
| "map_text pf (p # ps) =
     (case member pf p (asc ''text'') of
        Inl e \<Rightarrow> Inl e
      | Inr t \<Rightarrow> (case map_text pf ps of Inl e \<Rightarrow> Inl e | Inr ts \<Rightarrow> Inr (t # ts)))"

text \<open>
  \<open>v.candidates?.[0]?.content?.parts?.map((p) => p.text).join('') || ''\<close>: each \<open>?.\<close>
  ends the whole chain with \<open>undefined\<close>, which \<open>|| ''\<close> turns into the empty string;
  \<open>.map\<close> on anything but an array is not a function.
\<close>

definition candidate_text :: "platform \<Rightarrow> jsval \<Rightarrow> thrown + jstr" where
  "candidate_text pf v =
     (case member pf v (asc ''candidates'') of
        Inl e \<Rightarrow> Inl e
      | Inr candidates \<Rightarrow>
          if nullish candidates then Inr []
          else let first = index0 candidates in
          if nullish first then Inr []
          else let content = property first (asc ''content'') in
          if nullish content then Inr []
          else let parts = property content (asc ''parts'') in
          if nullish parts then Inr []
          else (case parts of
                  JArr ps \<Rightarrow>
                    (case map_text pf ps of
                       Inl e \<Rightarrow> Inl e
                     | Inr ts \<Rightarrow> join pf [] ts)
                | _ \<Rightarrow> Inl (TypeError pf (NotAFunction (asc ''map'')))))"

section \<open>Decoding a chunk of bytes\<close>

text \<open>
  \<open>new TextDecoder().decode(value)\<close>, called without \<open>stream: true\<close>: each call decodes
  its bytes as UTF-8 from a fresh state, replaces every ill-formed sequence (also one cut
  off by the end of the chunk) by U+FFFD, and drops a leading byte order mark. The state
  of the decoder is the code point under construction, the bytes seen and needed, and the
  bounds of the next continuation byte.
\<close>

record utf8 =
  code_point :: nat
  bytes_seen :: nat
  bytes_needed :: nat
  lower_boundary :: byte
  upper_boundary :: byte

definition utf8_init :: utf8 where
  "utf8_init = \<lparr>code_point = 0, bytes_seen = 0, bytes_needed = 0,
                 lower_boundary = 0x80, upper_boundary = 0xBF\<rparr>"

text \<open>A byte read when no bytes are needed: the code points emitted and the next state.\<close>

definition utf8_lead :: "byte \<Rightarrow> nat list \<times> utf8" where
  "utf8_lead b =
     (if b \<le> 0x7F then ([unat b], utf8_init)
      else if 0xC2 \<le> b \<and> b \<le> 0xDF then
        ([], utf8_init\<lparr>bytes_needed := 1, code_point := unat (b AND 0x1F)\<rparr>)
      else if 0xE0 \<le> b \<and> b \<le> 0xEF then
        ([], utf8_init\<lparr>bytes_needed := 2, code_point := unat (b AND 0xF),
                       lower_boundary := (if b = 0xE0 then 0xA0 else 0x80),
                       upper_boundary := (if b = 0xED then 0x9F else 0xBF)\<rparr>)
      else if 0xF0 \<le> b \<and> b \<le> 0xF4 then
        ([], utf8_init\<lparr>bytes_needed := 3, code_point := unat (b AND 0x7),
                       lower_boundary := (if b = 0xF0 then 0x90 else 0x80),
                       upper_boundary := (if b = 0xF4 then 0x8F else 0xBF)\<rparr>)
      else ([0xFFFD], utf8_init))"

text \<open>
  One byte in any state. A byte outside the bounds ends the sequence under construction
  with U+FFFD and is then read again as a leading byte.
\<close>

definition utf8_handler :: "utf8 \<Rightarrow> byte \<Rightarrow> nat list \<times> utf8" where
  "utf8_handler st b =
     (if bytes_needed st = 0 then utf8_lead b
      else if b < lower_boundary st \<or> upper_boundary st < b then
        (0xFFFD # fst (utf8_lead b), snd (utf8_lead b))
      else
        (let cp = code_point st * 64 + unat (b AND 0x3F); seen = bytes_seen st + 1
         in if seen \<noteq> bytes_needed st then
              ([], st\<lparr>code_point := cp, bytes_seen := seen,
                       lower_boundary := 0x80, upper_boundary := 0xBF\<rparr>)
            else ([cp], utf8_init)))"

fun utf8_run :: "utf8 \<Rightarrow> byte list \<Rightarrow> nat list" where
  "utf8_run st [] = (if bytes_needed st \<noteq> 0 then [0xFFFD] else [])"
| "utf8_run st (b # bs) = fst (utf8_handler st b) @ utf8_run (snd (utf8_handler st b)) bs"

text \<open>A code point as UTF-16 code units: itself, or a surrogate pair.\<close>

definition utf16 :: "nat \<Rightarrow> jstr" where
  "utf16 cp =
     (if cp < 0x10000 then [of_nat cp]
      else [0xD800 + of_nat ((cp - 0x10000) div 0x400),
            0xDC00 + of_nat ((cp - 0x10000) mod 0x400)])"

definition strip_bom :: "nat list \<Rightarrow> nat list" where
  "strip_bom cps = (case cps of [] \<Rightarrow> [] | c # rest \<Rightarrow> if c = 0xFEFF then rest else cps)"

definition decode :: "byte list \<Rightarrow> jstr" where
  "decode bytes = concat (map utf16 (strip_bom (utf8_run utf8_init bytes)))"

section \<open>The world around a call\<close>

text \<open>
  \<open>onStreamChunk(newChunk, fullText, isComplete)\<close>: a call is the triple of its arguments,
  and the callback of the caller is the function telling what a call throws, if anything.
\<close>

type_synonym cb_call = "jstr \<times> jstr \<times> bool"
type_synonym callback = "cb_call \<Rightarrow> thrown option"

text \<open>
  The argument of \<open>fetch\<close>. \<open>body\<close> is the request object that the source passes through
  \<open>JSON.stringify\<close>.
\<close>

record request =
  url :: jstr
  http_method :: jstr
  headers :: "(jstr \<times> jstr) list"
  body :: jsval

text \<open>
  The effects of a call are kept in a state that is passed along: the reading of
  \<open>performance.now()\<close>, the requests issued through \<open>fetch\<close>, and the calls of
  \<open>onStreamChunk\<close>, each in order. Time passes only while the code awaits: every awaited
  operation comes with the time it takes. Timestamps are real numbers of milliseconds.
\<close>

record world =
  clock :: real
  requests :: "request list"
  calls :: "cb_call list"

text \<open>
  The body of a response as \<open>reader.read()\<close> delivers it: finitely many chunks, each after
  a wait, then a last read that reports the end of the stream or rejects.
\<close>

record stream_body =
  reads :: "(real \<times> byte list) list"
  last_wait :: real
  failure :: "thrown option"

text \<open>
  A response: \<open>response.ok\<close> is derived from the status, \<open>response.body\<close> may be \<open>null\<close>,
  and \<open>response.json()\<close> resolves to a value or rejects, after a wait.
\<close>

record response =
  status :: nat
  statusText :: jstr
  stream :: "stream_body option"
  json :: "thrown + jsval"
  json_wait :: real

definition ok :: "response \<Rightarrow> bool" where
  "ok r \<longleftrightarrow> 200 \<le> status r \<and> status r \<le> 299"

text \<open>\<open>fetch\<close> resolves to a response or rejects, after a wait.\<close>

record env =
  fetch :: "request \<Rightarrow> real \<times> (thrown + response)"

section \<open>The streaming loop\<close>

text \<open>
  One iteration of \<open>for (const line of lines)\<close>, on the text accumulated so far and the
  world: go on with the next line, \<open>break\<close>, or leave with an exception. The inner
  \<open>try\<close> catches what \<open>JSON.parse\<close>, the extraction and the callback for a fragment
  throw (it only logs); the callback for the sentinel is outside it.
\<close>

datatype 'a step = Next 'a | Break 'a | Raise thrown 'a

definition line_step :: "platform \<Rightarrow> callback \<Rightarrow> jstr \<Rightarrow> jstr \<times> world \<Rightarrow> (jstr \<times> world) step" where
  "line_step pf cb line s =
     (let fullText = fst s; w = snd s; trimmed = trim line in
      if \<not> startsWith trimmed (asc ''data: '') then Next s
      else let jsonStr = drop 6 trimmed in
        if jsonStr = asc ''[DONE]'' then
          (let w' = w\<lparr>calls := calls w @ [([], fullText, True)]\<rparr> in
           case cb ([], fullText, True) of
             Some e \<Rightarrow> Raise e (fullText, w')
           | None \<Rightarrow> Break (fullText, w'))
        else
          (case JSON_parse pf jsonStr of
             Inl msg \<Rightarrow> Next s
           | Inr parsed \<Rightarrow>
               (case candidate_text pf parsed of
                  Inl e \<Rightarrow> Next s
                | Inr text \<Rightarrow>
                    if text \<noteq> [] then
                      Next (fullText @ text,
                            w\<lparr>calls := calls w @ [(text, fullText @ text, False)]\<rparr>)
                    else Next s)))"

fun for_lines :: "platform \<Rightarrow> callback \<Rightarrow> jstr list \<Rightarrow> jstr \<times> world \<Rightarrow> thrown option \<times> jstr \<times> world" where
  "for_lines pf cb [] s = (None, s)"
| "for_lines pf cb (line # rest) s =
     (case line_step pf cb line s of
        Next s' \<Rightarrow> for_lines pf cb rest s'
      | Break s' \<Rightarrow> (None, s')
      | Raise e s' \<Rightarrow> (Some e, s'))"

text \<open>
  \<open>while (true)\<close>: read, leave the loop when the stream is done, else decode the chunk,
  split it and run the \<open>for\<close> loop on its lines. Only an exception ends the loop before
  the stream is done.
\<close>

definition tick :: "real \<Rightarrow> world \<Rightarrow> world" where
  "tick dt w = w\<lparr>clock := clock w + dt\<rparr>"

fun read_loop :: "platform \<Rightarrow> callback \<Rightarrow> (real \<times> byte list) list \<Rightarrow> real \<times> thrown option \<Rightarrow>
    jstr \<times> world \<Rightarrow> thrown option \<times> jstr \<times> world" where
  "read_loop pf cb [] fin s = (snd fin, fst s, tick (fst fin) (snd s))"
| "read_loop pf cb (r # rs) fin s =
     (case for_lines pf cb (split_nl (decode (snd r))) (fst s, tick (fst r) (snd s)) of
        (Some e, s') \<Rightarrow> (Some e, s')
      | (None, s') \<Rightarrow> read_loop pf cb rs fin s')"

section \<open>The two copies of the Gemini service\<close>

text \<open>
  The repository holds two copies of \<open>generateResponse\<close> for Gemini:
  \<open>services/geminiService.ts\<close>, which the router imports, and an earlier copy. They have
  the same control flow; they differ in the spacing and punctuation of some messages, in
  the \<open>&alt=sse\<close> suffix of the streaming URL and in the field that carries the system
  instruction. The model takes the copy as a parameter.
\<close>

datatype version = Revised | Earlier

definition DEFAULT_GEMINI_API_BASE :: jstr where
  "DEFAULT_GEMINI_API_BASE = asc ''https://generativelanguage.googleapis.com/v1beta''"

definition msg_key_unset :: "version \<Rightarrow> jstr" where
  "msg_key_unset ver = (case ver of
     Revised \<Rightarrow> asc ''API'' @ [0x5BC6, 0x94A5, 0x672A, 0x8BBE, 0x7F6E, 0x3002, 0x8BF7, 0x914D, 0x7F6E, 0x60A8, 0x7684] @ asc '' Gemini API '' @ [0x5BC6, 0x94A5, 0x3002]
   | Earlier \<Rightarrow> asc ''API'' @ [0x5BC6, 0x94A5, 0x672A, 0x8BBE, 0x7F6E, 0x3002, 0x8BF7, 0x914D, 0x7F6E, 0x60A8, 0x7684] @ asc ''Gemini API'' @ [0x5BC6, 0x94A5, 0x3002])"

definition msg_401 :: jstr where
  "msg_401 = asc ''API'' @ [0x5BC6, 0x94A5, 0x65E0, 0x6548, 0x6216, 0x5DF2, 0x8FC7, 0x671F] @ asc '': ''"

definition msg_429 :: jstr where
  "msg_429 = asc ''API'' @ [0x8C03, 0x7528, 0x9891, 0x7387, 0x8D85, 0x9650] @ asc '': ''"

definition msg_404 :: jstr where
  "msg_404 = [0x6A21, 0x578B, 0x4E0D, 0x5B58, 0x5728, 0x6216, 0x65E0, 0x6743, 0x8BBF, 0x95EE] @ asc '': ''"

definition msg_other :: jstr where
  "msg_other = asc ''Gemini API '' @ [0x9519, 0x8BEF] @ asc '' (''"

definition msg_empty :: "version \<Rightarrow> jstr" where
  "msg_empty ver = (case ver of
     Revised \<Rightarrow> asc ''AI '' @ [0x54CD, 0x5E94, 0x4E3A, 0x7A7A, 0xFF0C, 0x8BF7, 0x68C0, 0x67E5, 0x6A21, 0x578B, 0x914D, 0x7F6E, 0x6216, 0x91CD, 0x8BD5, 0x3002]
   | Earlier \<Rightarrow> asc ''AI'' @ [0x54CD, 0x5E94, 0x4E3A, 0x7A7A, 0xFF0C, 0x8BF7, 0x68C0, 0x67E5, 0x6A21, 0x578B, 0x914D, 0x7F6E, 0x6216, 0x91CD, 0x8BD5])"

definition kw_key :: jstr where
  "kw_key = asc ''API'' @ [0x5BC6, 0x94A5]"

definition kw_model :: jstr where
  "kw_model = [0x6A21, 0x578B]"

definition kw_network :: jstr where
  "kw_network = [0x7F51, 0x7EDC]"

definition text_auth :: "version \<Rightarrow> jstr" where
  "text_auth ver = (case ver of
     Revised \<Rightarrow> asc ''API'' @ [0x5BC6, 0x94A5, 0x65E0, 0x6548, 0x6216, 0x5DF2, 0x8FC7, 0x671F, 0x3002, 0x8BF7, 0x68C0, 0x67E5, 0x60A8, 0x7684] @ asc '' Gemini API '' @ [0x5BC6, 0x94A5, 0x914D, 0x7F6E, 0x3002]
   | Earlier \<Rightarrow> asc ''API'' @ [0x5BC6, 0x94A5, 0x65E0, 0x6548, 0x6216, 0x5DF2, 0x8FC7, 0x671F, 0x3002, 0x8BF7, 0x68C0, 0x67E5, 0x60A8, 0x7684] @ asc ''Gemini API'' @ [0x5BC6, 0x94A5, 0x914D, 0x7F6E, 0x3002])"

definition text_rate :: jstr where
  "text_rate = asc ''API'' @ [0x8C03, 0x7528, 0x9891, 0x7387, 0x8D85, 0x9650, 0xFF0C, 0x8BF7, 0x7A0D, 0x540E, 0x91CD, 0x8BD5, 0x3002]"

definition text_model :: "version \<Rightarrow> jstr \<Rightarrow> jstr" where
  "text_model ver modelName = [0x6A21, 0x578B] @ asc '' '' @ modelName @ (case ver of
     Revised \<Rightarrow> asc '' '' @ [0x4E0D, 0x5B58, 0x5728, 0x6216, 0x65E0, 0x6743, 0x8BBF, 0x95EE, 0x3002, 0x8BF7, 0x68C0, 0x67E5, 0x6A21, 0x578B, 0x540D, 0x79F0, 0x6216] @ asc '' API '' @ [0x6743, 0x9650, 0x3002]
   | Earlier \<Rightarrow> asc '' '' @ [0x4E0D, 0x5B58, 0x5728, 0x6216, 0x65E0, 0x6743, 0x8BBF, 0x95EE, 0x3002, 0x8BF7, 0x68C0, 0x67E5, 0x6A21, 0x578B, 0x540D, 0x79F0, 0x6216] @ asc ''API'' @ [0x6743, 0x9650, 0x3002])"

definition text_network :: "version \<Rightarrow> jstr" where
  "text_network ver = (case ver of
     Revised \<Rightarrow> [0x7F51, 0x7EDC, 0x8FDE, 0x63A5, 0x9519, 0x8BEF, 0xFF0C, 0x8BF7, 0x68C0, 0x67E5, 0x7F51, 0x7EDC, 0x540E, 0x91CD, 0x8BD5, 0x3002]
   | Earlier \<Rightarrow> [0x7F51, 0x7EDC, 0x8FDE, 0x63A5, 0x9519, 0x8BEF, 0xFF0C, 0x8BF7, 0x68C0, 0x67E5, 0x7F51, 0x7EDC, 0x8FDE, 0x63A5, 0x540E, 0x91CD, 0x8BD5, 0x3002])"

definition text_generic :: "version \<Rightarrow> jstr \<Rightarrow> jstr" where
  "text_generic ver message = (case ver of
     Revised \<Rightarrow> [0x4E0E] @ asc '' Gemini '' @ [0x901A, 0x4FE1, 0x65F6, 0x51FA, 0x9519] @ asc '': ''
   | Earlier \<Rightarrow> [0x4E0E] @ asc ''Gemini'' @ [0x901A, 0x4FE1, 0x65F6, 0x51FA, 0x9519] @ asc '': '') @ message"

definition text_unknown :: "version \<Rightarrow> jstr" where
  "text_unknown ver = (case ver of
     Revised \<Rightarrow> [0x4E0E] @ asc '' Gemini '' @ [0x901A, 0x4FE1, 0x65F6, 0x53D1, 0x751F, 0x672A, 0x77E5, 0x9519, 0x8BEF, 0x3002]
   | Earlier \<Rightarrow> [0x4E0E] @ asc ''Gemini'' @ [0x901A, 0x4FE1, 0x65F6, 0x53D1, 0x751F, 0x672A, 0x77E5, 0x9519, 0x8BEF, 0x3002])"

section \<open>generateResponse\<close>

record inlineData =
  mimeType :: jstr
  data :: jstr

record args =
  prompt :: jstr
  modelName :: jstr
  systemInstruction :: "jstr option"
  shouldUseReducedCapacity :: bool
  imagePart :: "inlineData option"
  customBaseUrl :: "jstr option"
  apiKey :: "jstr option"
  onStreamChunk :: "callback option"

text \<open>
  The result. \<open>error\<close> is absent or holds a literal of the source or \<open>error.message\<close>, which
  is whatever value the caught Error carries.
\<close>

record GeminiResponse =
  text_js :: jstr
  durationMs :: real
  error :: "jsval option"

text \<open>The request: one user message, the generation settings, the system instruction, the URL.\<close>

definition requestBody :: "version \<Rightarrow> args \<Rightarrow> jsval" where
  "requestBody ver a =
     (let userParts =
            [JObj [(asc ''text'', JStr (prompt a))]] @
            (case imagePart a of
               None \<Rightarrow> []
             | Some d \<Rightarrow> [JObj [(asc ''inlineData'',
                  JObj [(asc ''mimeType'', JStr (mimeType d)), (asc ''data'', JStr (data d))])]]);
          contents = JArr [JObj [(asc ''role'', JStr (asc ''user'')), (asc ''parts'', JArr userParts)]];
          generationConfig = JObj
            [(asc ''temperature'', JNum (if shouldUseReducedCapacity a then asc ''0.3'' else asc ''0.7'')),
             (asc ''maxOutputTokens'', JNum (if shouldUseReducedCapacity a then asc ''1000'' else asc ''4000''))]
      in JObj ([(asc ''contents'', contents), (asc ''generationConfig'', generationConfig)] @
        (case systemInstruction a of
           None \<Rightarrow> []
         | Some si \<Rightarrow>
             if si = [] then []
             else (case ver of
               Revised \<Rightarrow> [(asc ''system_instruction'',
                  JObj [(asc ''parts'', JArr [JObj [(asc ''text'', JStr si)]])])]
             | Earlier \<Rightarrow> [(asc ''systemInstruction'',
                  JObj [(asc ''role'', JStr (asc ''user'')),
                        (asc ''parts'', JArr [JObj [(asc ''text'', JStr si)]])])]))))"

definition request_url :: "version \<Rightarrow> args \<Rightarrow> jstr \<Rightarrow> jstr" where
  "request_url ver a key =
     (let apiBase = (case customBaseUrl a of
                       None \<Rightarrow> DEFAULT_GEMINI_API_BASE
                     | Some b \<Rightarrow> if b = [] then DEFAULT_GEMINI_API_BASE else b);
          endpoint = (if onStreamChunk a \<noteq> None then asc ''streamGenerateContent''
                      else asc ''generateContent'')
      in apiBase @ asc ''/models/'' @ modelName a @ asc '':'' @ endpoint @ asc ''?key='' @ key @
         (if ver = Revised \<and> onStreamChunk a \<noteq> None then asc ''&alt=sse'' else []))"

definition build_request :: "version \<Rightarrow> args \<Rightarrow> jstr \<Rightarrow> request" where
  "build_request ver a key =
     \<lparr>url = request_url ver a key, http_method = asc ''POST'',
      headers = [(asc ''Content-Type'', asc ''application/json'')],
      body = requestBody ver a\<rparr>"

text \<open>
  The branch \<open>if (!response.ok)\<close>, after \<open>response.json()\<close> has settled. First
  \<open>errorMessage\<close>: a body that is not JSON counts as \<open>{}\<close>, \<open>errorData.error\<close> is read
  with no \<open>?.\<close> before it, and a falsy message gives way to the status text.
\<close>

definition errorMessage_of :: "platform \<Rightarrow> response \<Rightarrow> thrown + jsval" where
  "errorMessage_of pf r =
     (let errorData = (case json r of Inl e \<Rightarrow> JObj [] | Inr v \<Rightarrow> v) in
      case member pf errorData (asc ''error'') of
        Inl e \<Rightarrow> Inl e
      | Inr err \<Rightarrow>
          (let m = (if nullish err then JUndefined else property err (asc ''message''))
           in Inr (if truthy m then m else JStr (statusText r))))"

text \<open>
  Then the value thrown, by status. The template literals convert \<open>errorMessage\<close> to a
  string, except for status 404, whose message names the model only.
\<close>

definition http_error :: "platform \<Rightarrow> jstr \<Rightarrow> response \<Rightarrow> thrown" where
  "http_error pf model r =
     (case errorMessage_of pf r of
        Inl e \<Rightarrow> e
      | Inr errorMessage \<Rightarrow>
          if status r = 401 then
            (case toString pf errorMessage of Inl e \<Rightarrow> e | Inr t \<Rightarrow> JsError (JStr (msg_401 @ t)))
          else if status r = 429 then
            (case toString pf errorMessage of Inl e \<Rightarrow> e | Inr t \<Rightarrow> JsError (JStr (msg_429 @ t)))
          else if status r = 404 then JsError (JStr (msg_404 @ model))
          else
            (case toString pf errorMessage of
               Inl e \<Rightarrow> e
             | Inr t \<Rightarrow> JsError (JStr (msg_other @ decimal (status r) @ asc ''): '' @ t))))"

text \<open>
  The part of the \<open>try\<close> block after the status check: the streaming loop when there is a
  callback and a body, else \<open>response.json()\<close> and the extraction; then the check for an
  empty text. \<open>durationMs\<close> is computed from the clock before either.
\<close>

definition read_response ::
    "version \<Rightarrow> platform \<Rightarrow> args \<Rightarrow> response \<Rightarrow> real \<Rightarrow> world \<Rightarrow> (thrown + GeminiResponse) \<times> world" where
  "read_response ver pf a r startTime w =
     (let duration = clock w - startTime;
          parsed =
            (case (onStreamChunk a, stream r) of
               (Some cb, Some b) \<Rightarrow>
                 (case read_loop pf cb (reads b) (last_wait b, failure b) ([], w) of
                    (Some e, s) \<Rightarrow> (Inl e, snd s)
                  | (None, s) \<Rightarrow> (Inr (fst s), snd s))
             | _ \<Rightarrow>
                 (case json r of
                    Inl e \<Rightarrow> (Inl e, tick (json_wait r) w)
                  | Inr v \<Rightarrow> (candidate_text pf v, tick (json_wait r) w)))
      in case parsed of
           (Inl e, w') \<Rightarrow> (Inl e, w')
         | (Inr fullText, w') \<Rightarrow>
             if trim fullText = [] then (Inl (JsError (JStr (msg_empty ver))), w')
             else (Inr \<lparr>text_js = fullText, durationMs = duration, error = None\<rparr>, w'))"

definition try_block ::
    "version \<Rightarrow> platform \<Rightarrow> env \<Rightarrow> args \<Rightarrow> real \<Rightarrow> world \<Rightarrow> (thrown + GeminiResponse) \<times> world" where
  "try_block ver pf ev a startTime w =
     (case apiKey a of
        None \<Rightarrow> (Inl (JsError (JStr (msg_key_unset ver))), w)
      | Some key \<Rightarrow>
          if trim key = [] then (Inl (JsError (JStr (msg_key_unset ver))), w)
          else
            (let req = build_request ver a key;
                 w1 = tick (fst (fetch ev req)) (w\<lparr>requests := requests w @ [req]\<rparr>)
             in case snd (fetch ev req) of
                  Inl e \<Rightarrow> (Inl e, w1)
                | Inr r \<Rightarrow>
                    if \<not> ok r then (Inl (http_error pf (modelName a) r), tick (json_wait r) w1)
                    else read_response ver pf a r startTime w1))"

text \<open>
  \<open>error.message.includes(pattern)\<close>: the substring test on a string, the membership test
  of \<open>Array.prototype.includes\<close> on an array, and a TypeError on every other value, which
  has no method \<open>includes\<close>. \<open>x || y\<close> evaluates \<open>y\<close> only when \<open>x\<close> is false.
\<close>

definition message_includes :: "platform \<Rightarrow> jsval \<Rightarrow> jstr \<Rightarrow> thrown + bool" where
  "message_includes pf message pattern =
     (case message of
        JStr s \<Rightarrow> Inr (includes_js s pattern)
      | JArr xs \<Rightarrow> Inr (JStr pattern \<in> set xs)
      | JUndefined \<Rightarrow> Inl (TypeError pf (ReadOfNullish (asc ''includes'')))
      | JNull \<Rightarrow> Inl (TypeError pf (ReadOfNullish (asc ''includes'')))
      | _ \<Rightarrow> Inl (TypeError pf (NotAFunction (asc ''includes''))))"

definition or_else :: "thrown + bool \<Rightarrow> thrown + bool \<Rightarrow> thrown + bool" where
  "or_else x y = (case x of Inl e \<Rightarrow> Inl e | Inr b \<Rightarrow> if b then Inr True else y)"

text \<open>
  The \<open>catch\<close> block: the result for a thrown value, by the substrings of its message. The
  tests and the template literal of the last result are not guarded: what they throw
  leaves the function, and the promise of the caller rejects.
\<close>

definition catch_block ::
    "version \<Rightarrow> platform \<Rightarrow> jstr \<Rightarrow> real \<Rightarrow> thrown \<Rightarrow> thrown + GeminiResponse" where
  "catch_block ver pf model duration err =
     (case err of
        JsError message \<Rightarrow>
          (case or_else (message_includes pf message kw_key)
                 (or_else (message_includes pf message (asc ''401''))
                   (message_includes pf message (asc ''Unauthorized''))) of
             Inl e \<Rightarrow> Inl e
           | Inr is_key \<Rightarrow>
          if is_key then
            Inr \<lparr>text_js = text_auth ver, durationMs = duration,
                 error = Some (JStr (asc ''API key not valid''))\<rparr>
          else
          (case or_else (message_includes pf message (asc ''429''))
                 (message_includes pf message (asc ''Rate limit'')) of
             Inl e \<Rightarrow> Inl e
           | Inr is_rate \<Rightarrow>
          if is_rate then
            Inr \<lparr>text_js = text_rate, durationMs = duration,
                 error = Some (JStr (asc ''Rate limit exceeded''))\<rparr>
          else
          (case or_else (message_includes pf message (asc ''404''))
                 (message_includes pf message kw_model) of
             Inl e \<Rightarrow> Inl e
           | Inr is_model \<Rightarrow>
          if is_model then
            Inr \<lparr>text_js = text_model ver model, durationMs = duration,
                 error = Some (JStr (asc ''Model not found''))\<rparr>
          else
          (case or_else (message_includes pf message kw_network)
                 (message_includes pf message (asc ''fetch'')) of
             Inl e \<Rightarrow> Inl e
           | Inr is_network \<Rightarrow>
          if is_network then
            Inr \<lparr>text_js = text_network ver, durationMs = duration,
                 error = Some (JStr (asc ''Network error''))\<rparr>
          else
          (case toString pf message of
             Inl e \<Rightarrow> Inl e
           | Inr t \<Rightarrow>
               Inr \<lparr>text_js = text_generic ver t, durationMs = duration,
                    error = Some message\<rparr>)))))
      | NonError \<Rightarrow>
          Inr \<lparr>text_js = text_unknown ver, durationMs = duration,
               error = Some (JStr (asc ''Unknown Gemini error''))\<rparr>)"

text \<open>
  The function: the result of the \<open>try\<close> block, or what the \<open>catch\<close> block makes of the
  value thrown there. \<open>Inl\<close> is an exception that reaches the caller.
\<close>

definition generateResponse ::
    "version \<Rightarrow> platform \<Rightarrow> env \<Rightarrow> args \<Rightarrow> world \<Rightarrow> (thrown + GeminiResponse) \<times> world" where
  "generateResponse ver pf ev a w =
     (let startTime = clock w in
      case try_block ver pf ev a startTime w of
        (Inr res, w') \<Rightarrow> (Inr res, w')
      | (Inl e, w') \<Rightarrow> (catch_block ver pf (modelName a) (clock w' - startTime) e, w'))"

section \<open>The router\<close>

text \<open>
  The \<open>generateResponse\<close> that callers import chooses the service by substrings of the
  lower-cased base URL and model name. The OpenAI service is not among the sources, and
  \<open>toLowerCase\<close> is the engine's: both are parameters.
\<close>

definition routes_to_gemini :: "(jstr \<Rightarrow> jstr) \<Rightarrow> args \<Rightarrow> bool" where
  "routes_to_gemini toLowerCase a \<longleftrightarrow>
     (let base = toLowerCase (case customBaseUrl a of None \<Rightarrow> [] | Some b \<Rightarrow> b);
          model = toLowerCase (modelName a)
      in includes_js base (asc ''generativelanguage.googleapis.com'') \<or>
         includes_js model (asc ''gemini''))"

definition generateResponse_router ::
    "(jstr \<Rightarrow> jstr) \<Rightarrow> (args \<Rightarrow> world \<Rightarrow> (thrown + GeminiResponse) \<times> world) \<Rightarrow>
     platform \<Rightarrow> env \<Rightarrow> args \<Rightarrow> world \<Rightarrow> (thrown + GeminiResponse) \<times> world" where
  "generateResponse_router toLowerCase generateOpenAIResponse pf ev a w =
     (if routes_to_gemini toLowerCase a then generateResponse Revised pf ev a w
      else generateOpenAIResponse a w)"

section \<open>Streams and what a caller sees of them\<close>

text \<open>
  A frame is a line that the loop does not pass over; a sentinel is the frame whose payload
  is \<open>[DONE]\<close>. \<open>frames_end_at_sentinel\<close> holds of the chunks of a stream in which no
  frame arrives in a chunk after the first chunk that holds a sentinel.
\<close>

definition is_frame :: "jstr \<Rightarrow> bool" where
  "is_frame line \<longleftrightarrow> startsWith (trim line) (asc ''data: '')"

definition is_sentinel :: "jstr \<Rightarrow> bool" where
  "is_sentinel line \<longleftrightarrow> is_frame line \<and> drop 6 (trim line) = asc ''[DONE]''"

fun frames_end_at_sentinel :: "byte list list \<Rightarrow> bool" where
  "frames_end_at_sentinel [] = True"
| "frames_end_at_sentinel (c # cs) =
     (if \<exists>l\<in>set (split_nl (decode c)). is_sentinel l
      then \<forall>c'\<in>set cs. \<forall>l\<in>set (split_nl (decode c')). \<not> is_frame l
      else frames_end_at_sentinel cs)"

text \<open>
  What the caller sees of a run of the loop: the exception that ended it, if any, the text
  accumulated, and the calls of its callback. The clock is left out.
\<close>

definition observe :: "thrown option \<times> jstr \<times> world \<Rightarrow> thrown option \<times> jstr \<times> cb_call list" where
  "observe r = (fst r, fst (snd r), calls (snd (snd r)))"

text \<open>
  The thrown values that the \<open>catch\<close> block is written for: an Error whose message is a
  string, and a value that is no Error.
\<close>

fun plain :: "thrown \<Rightarrow> bool" where
  "plain (JsError (JStr m)) = True"
| "plain (JsError _) = False"
| "plain NonError = True"

text \<open>
  The states a decoder reaches from its initial state: while bytes are needed, the lower
  bound of the next byte is no ASCII byte.
\<close>

definition utf8_ok :: "utf8 \<Rightarrow> bool" where
  "utf8_ok st \<longleftrightarrow> bytes_needed st = 0 \<or> 0x80 \<le> lower_boundary st"

section \<open>Inputs for the examples\<close>

text \<open>
  ASCII text as the bytes of a chunk, a world in which nothing has happened yet, a callback
  that never throws, a call with a given key and callback, and a network that is down.
\<close>

definition bytes :: "string \<Rightarrow> byte list" where
  "bytes s = map of_char s"

definition world0 :: world where
  "world0 = \<lparr>clock = 0, requests = [], calls = []\<rparr>"

definition silent :: callback where
  "silent c = None"

text \<open>
  A callback that fails on the call with \<open>isComplete = true\<close>: it throws an Error whose
  message is \<open>undefined\<close>.
\<close>

definition failing :: callback where
  "failing c = (if snd (snd c) then Some (JsError JUndefined) else None)"

definition example_args :: "jstr option \<Rightarrow> callback option \<Rightarrow> args" where
  "example_args key cb =
     \<lparr>prompt = asc ''Say hi'', modelName = asc ''gemini-pro'', systemInstruction = None,
      shouldUseReducedCapacity = False, imagePart = None, customBaseUrl = None,
      apiKey = key, onStreamChunk = cb\<rparr>"

definition offline :: env where
  "offline = \<lparr>fetch = (\<lambda>req. (30, Inl (JsError (JStr (asc ''Failed to fetch'')))))\<rparr>"

text \<open>
  One payload and the value \<open>JSON.parse\<close> gives for it, and an engine for the examples:
  its \<open>JSON_parse\<close> is \<open>JSON.parse\<close> on this payload and on every text that is not JSON,
  and the examples give it no other text.
\<close>

definition hi_payload :: jstr where
  \<open>hi_payload = asc ''{"candidates":[{"content":{"parts":[{"text":"Hi"}]}}]}''\<close>

definition hi_value :: jsval where
  "hi_value = JObj [(asc ''candidates'', JArr [JObj [(asc ''content'',
     JObj [(asc ''parts'', JArr [JObj [(asc ''text'', JStr (asc ''Hi''))]])])]])]"

definition sample_platform :: platform where
  "sample_platform =
     \<lparr>JSON_parse = (\<lambda>s. if s = hi_payload then Inr hi_value else Inl (asc ''Unexpected token'')),
      TypeError_message = (\<lambda>k. asc ''TypeError'')\<rparr>"

text \<open>
  A server that answers every request after 100 ms; a response with status 200 whose body
  is read as a stream; a response whose body is read by \<open>response.json()\<close>, in 40 ms (the
  examples that use it pass no callback).
\<close>

definition serving :: "response \<Rightarrow> env" where
  "serving r = \<lparr>fetch = (\<lambda>req. (100, Inr r))\<rparr>"

definition streamed :: "(real \<times> byte list) list \<Rightarrow> response" where
  "streamed rs =
     \<lparr>status = 200, statusText = asc ''OK'',
      stream = Some \<lparr>reads = rs, last_wait = 0, failure = None\<rparr>,
      json = Inl (JsError (JStr (asc ''body stream already read''))), json_wait = 0\<rparr>"

definition answered :: "nat \<Rightarrow> jsval \<Rightarrow> response" where
  "answered st v =
     \<lparr>status = st, statusText = [], stream = None, json = Inr v, json_wait = 40\<rparr>"

text \<open>
  The bytes of some lines: a frame that carries \<open>hi_payload\<close>, whole and cut in two inside
  its prefix; the sentinel frame; a frame whose payload breaks off, with its line feed and,
  as the head of a frame that a read cut, without.
\<close>

definition hi_frame :: "byte list" where
  \<open>hi_frame = bytes ''data: {"candidates":[{"content":{"parts":[{"text":"Hi"}]}}]}'' @ [0x0A]\<close>

definition hi_head :: "byte list" where
  "hi_head = bytes ''da''"

definition hi_tail :: "byte list" where
  \<open>hi_tail = bytes ''ta: {"candidates":[{"content":{"parts":[{"text":"Hi"}]}}]}'' @ [0x0A]\<close>

definition done_frame :: "byte list" where
  "done_frame = bytes ''data: [DONE]'' @ [0x0A]"

definition cut_frame :: "byte list" where
  \<open>cut_frame = bytes ''data: {"candidates":'' @ [0x0A]\<close>

definition frame_head :: "byte list" where
  \<open>frame_head = bytes ''data: {"candi''\<close>

text \<open>
  Two bodies as \<open>response.json()\<close> gives them: an answer whose only candidate was stopped
  and has no content, and the error body of a project that is out of quota.
\<close>

definition blocked :: jsval where
  "blocked = JObj [(asc ''candidates'', JArr [JObj [(asc ''finishReason'', JStr (asc ''SAFETY''))]])]"

definition exhausted :: jsval where
  "exhausted = JObj [(asc ''error'', JObj [(asc ''code'', JNum (asc ''429'')),
     (asc ''message'', JStr (asc ''Resource has been exhausted (e.g. check quota).'')),
     (asc ''status'', JStr (asc ''RESOURCE_EXHAUSTED''))])]"


section \<open>Strings\<close>

lemma dropWhile_all: "(\<forall>x\<in>set (dropWhile P xs). P x) \<longleftrightarrow> (\<forall>x\<in>set xs. P x)"
proof
  assume a: "\<forall>x\<in>set (dropWhile P xs). P x"
  have "dropWhile P xs = []"
  proof (rule ccontr)
    assume n: "dropWhile P xs \<noteq> []"
    then have "\<not> P (hd (dropWhile P xs))" by (rule hd_dropWhile)
    moreover have "hd (dropWhile P xs) \<in> set (dropWhile P xs)" using n by simp
    ultimately show False using a by blast
  qed
  then show "\<forall>x\<in>set xs. P x" by (simp add: dropWhile_eq_Nil_conv)
next
  assume "\<forall>x\<in>set xs. P x"
  then show "\<forall>x\<in>set (dropWhile P xs). P x" by (meson set_dropWhileD)
qed

lemma trim_blank: "trim k = [] \<longleftrightarrow> (\<forall>c\<in>set k. isWhiteSpace c)"
  by (simp add: trim_def dropWhile_eq_Nil_conv dropWhile_all)

section \<open>Errors become results\<close>

lemma key_unset_is_key_error: "includes_js (msg_key_unset ver) kw_key"
  by (cases ver) (simp_all add: msg_key_unset_def kw_key_def asc_def)

text \<open>The \<open>catch\<close> block on an Error whose message is a string: it never throws.\<close>

lemma catch_block_string:
  "catch_block ver pf model d (JsError (JStr message)) = Inr
     (if includes_js message kw_key \<or> includes_js message (asc ''401'') \<or>
         includes_js message (asc ''Unauthorized'') then
        \<lparr>text_js = text_auth ver, durationMs = d, error = Some (JStr (asc ''API key not valid''))\<rparr>
      else if includes_js message (asc ''429'') \<or> includes_js message (asc ''Rate limit'') then
        \<lparr>text_js = text_rate, durationMs = d, error = Some (JStr (asc ''Rate limit exceeded''))\<rparr>
      else if includes_js message (asc ''404'') \<or> includes_js message kw_model then
        \<lparr>text_js = text_model ver model, durationMs = d,
         error = Some (JStr (asc ''Model not found''))\<rparr>
      else if includes_js message kw_network \<or> includes_js message (asc ''fetch'') then
        \<lparr>text_js = text_network ver, durationMs = d, error = Some (JStr (asc ''Network error''))\<rparr>
      else \<lparr>text_js = text_generic ver message, durationMs = d, error = Some (JStr message)\<rparr>)"
  by (simp add: catch_block_def message_includes_def or_else_def)

lemma catch_block_NonError:
  "catch_block ver pf model d NonError =
     Inr \<lparr>text_js = text_unknown ver, durationMs = d,
          error = Some (JStr (asc ''Unknown Gemini error''))\<rparr>"
  by (simp add: catch_block_def)

lemma text_auth_not_Nil: "text_auth ver \<noteq> []"
  by (cases ver) (simp_all add: text_auth_def asc_def)

lemma text_model_not_Nil: "text_model ver m \<noteq> []"
  by (simp add: text_model_def)

lemma text_network_not_Nil: "text_network ver \<noteq> []"
  by (cases ver) (simp_all add: text_network_def)

lemma text_generic_not_Nil: "text_generic ver t \<noteq> []"
  by (cases ver) (simp_all add: text_generic_def)

lemma text_unknown_not_Nil: "text_unknown ver \<noteq> []"
  by (cases ver) (simp_all add: text_unknown_def)

lemma text_rate_not_Nil: "text_rate \<noteq> []"
  by (simp add: text_rate_def asc_def)

lemmas texts_not_Nil = text_auth_not_Nil text_model_not_Nil text_network_not_Nil
  text_generic_not_Nil text_unknown_not_Nil text_rate_not_Nil

lemma catch_block_result:
  assumes "catch_block ver pf m d e = Inr res"
  shows "text_js res \<noteq> []" and "error res \<noteq> None" and "durationMs res = d"
  using assms
  by (auto simp: catch_block_def texts_not_Nil split: thrown.splits sum.splits if_splits)

lemma read_response_error:
  "read_response ver pf a r t w = (Inr res, w') \<Longrightarrow> error res = None"
  by (auto simp: read_response_def Let_def split: prod.splits sum.splits option.splits if_splits)

lemma try_block_error:
  "try_block ver pf ev a t w = (Inr res, w') \<Longrightarrow> error res = None"
  by (auto simp: try_block_def Let_def read_response_error split: option.splits sum.splits if_splits)

lemma offline_throws:
  "try_block ver pf offline (example_args (Some (asc ''k'')) None) t w =
     (Inl (JsError (JStr (asc ''Failed to fetch''))),
      tick 30 (w\<lparr>requests := requests w @
        [build_request ver (example_args (Some (asc ''k'')) None) (asc ''k'')]\<rparr>))"
  by (simp add: try_block_def example_args_def offline_def trim_def asc_def isWhiteSpace_def Let_def)

text \<open>
  The errors that the function raises itself are Errors with string messages: the value
  thrown in the \<open>try\<close> block is plain whenever the values that \<open>fetch\<close>, \<open>response.json()\<close>,
  the reads of the body and the callback throw are.
\<close>

lemma plain_TypeError: "plain (TypeError pf k)"
  by (simp add: TypeError_def)

lemma plain_member: "member pf v name = Inl e \<Longrightarrow> plain e"
  by (auto simp: member_def plain_TypeError split: if_splits)

lemma plain_toString: "toString pf v = Inl e \<Longrightarrow> plain e"
  and plain_join: "join pf sep vs = Inl e \<Longrightarrow> plain e"
  by (induction pf v and pf sep vs arbitrary: e and e rule: toString_join.induct)
     (auto simp: plain_TypeError split: if_splits sum.splits)

lemma plain_map_text: "map_text pf ps = Inl e \<Longrightarrow> plain e"
  by (induction ps arbitrary: e) (auto dest: plain_member split: sum.splits)

lemma plain_candidate_text: "candidate_text pf v = Inl e \<Longrightarrow> plain e"
  by (auto simp: candidate_text_def Let_def plain_TypeError
      dest: plain_member plain_map_text plain_join split: sum.splits if_splits jsval.splits)

lemma plain_http_error: "plain (http_error pf model r)"
  by (auto simp: http_error_def errorMessage_of_def Let_def
      dest: plain_member plain_toString split: sum.splits)

lemma plain_line_step:
  assumes "line_step pf cb l s = Raise e s'" and "\<And>c x. cb c = Some x \<Longrightarrow> plain x"
  shows "plain e"
  using assms by (auto simp: line_step_def Let_def split: if_splits option.splits sum.splits)

lemma plain_for_lines:
  assumes "for_lines pf cb ls s = (Some e, s')" and "\<And>c x. cb c = Some x \<Longrightarrow> plain x"
  shows "plain e"
  using assms(1)
proof (induction ls arbitrary: s)
  case Nil
  then show ?case by simp
next
  case (Cons l ls)
  then show ?case
    using plain_line_step [where cb = cb and l = l and s = s, OF _ assms(2)]
    by (auto split: step.splits)
qed

lemma plain_read_loop:
  assumes "read_loop pf cb rs fin s = (Some e, s')" and "\<And>c x. cb c = Some x \<Longrightarrow> plain x"
    and "\<And>x. snd fin = Some x \<Longrightarrow> plain x"
  shows "plain e"
  using assms(1)
proof (induction rs arbitrary: s)
  case Nil
  then show ?case using assms(3) by auto
next
  case (Cons r rs)
  then show ?case
    using plain_for_lines [where cb = cb and ls = "split_nl (decode (snd r))", OF _ assms(2)]
    by (auto split: prod.splits option.splits)
qed

lemma try_block_plain:
  assumes "try_block ver pf ev a t w = (Inl e, w')"
    and "\<And>req x. snd (fetch ev req) = Inl x \<Longrightarrow> plain x"
    and "\<And>req r x. snd (fetch ev req) = Inr r \<Longrightarrow> json r = Inl x \<Longrightarrow> plain x"
    and "\<And>req r b x. snd (fetch ev req) = Inr r \<Longrightarrow> stream r = Some b \<Longrightarrow> failure b = Some x \<Longrightarrow> plain x"
    and "\<And>cb c x. onStreamChunk a = Some cb \<Longrightarrow> cb c = Some x \<Longrightarrow> plain x"
  shows "plain e"
proof (cases "apiKey a")
  case None
  then show ?thesis using assms(1) by (auto simp: try_block_def)
next
  case (Some key)
  show ?thesis
  proof (cases "trim key = []")
    case True
    then show ?thesis using assms(1) Some by (auto simp: try_block_def)
  next
    case False
    let ?req = "build_request ver a key"
    show ?thesis
    proof (cases "snd (fetch ev ?req)")
      case (Inl x)
      then show ?thesis
        using assms(1,2) Some False by (auto simp: try_block_def Let_def)
    next
      case (Inr r)
      show ?thesis
      proof (cases "ok r")
        case False
        then show ?thesis
          using assms(1) Some \<open>trim key \<noteq> []\<close> Inr
          by (auto simp: try_block_def Let_def plain_http_error)
      next
        case True
        let ?w1 = "tick (fst (fetch ev ?req)) (w\<lparr>requests := requests w @ [?req]\<rparr>)"
        have rr: "read_response ver pf a r t ?w1 = (Inl e, w')"
          using assms(1) Some \<open>trim key \<noteq> []\<close> Inr True by (simp add: try_block_def Let_def)
        show ?thesis
        proof (cases "onStreamChunk a")
          case None
          then show ?thesis
            using rr assms(3) [OF Inr]
            by (auto simp: read_response_def Let_def dest: plain_candidate_text
                split: sum.splits if_splits)
        next
          case cb: (Some cb)
          show ?thesis
          proof (cases "stream r")
            case None
            then show ?thesis
              using rr cb assms(3) [OF Inr]
              by (auto simp: read_response_def Let_def dest: plain_candidate_text
                  split: sum.splits if_splits)
          next
            case (Some b)
            have pc: "\<And>c x. cb c = Some x \<Longrightarrow> plain x"
              using assms(5) [OF cb] by blast
            have pf': "\<And>x. snd (last_wait b, failure b) = Some x \<Longrightarrow> plain x"
              using assms(4) [OF Inr Some] by simp
            show ?thesis
              using rr cb Some plain_read_loop [where cb = cb and rs = "reads b", OF _ pc pf']
              by (auto simp: read_response_def Let_def split: prod.splits option.splits if_splits)
          qed
        qed
      qed
    qed
  qed
qed

text \<open>
  C7, as amended. When the \<open>try\<close> block throws an Error whose message is a string, or a
  value that is no Error (so are the errors for a missing key, an HTTP error status and an
  empty response, every TypeError, and the rejection of \<open>fetch\<close> when the network fails),
  the call returns, at the time of the throw, the result that the \<open>catch\<close> block builds
  from that value: its text is not empty, its duration is the time since the start, and
  its tag is \<open>Unknown Gemini error\<close> for a value that is no Error, and else one of the four
  category tags or the message itself. The router returns the same when it selects the
  Gemini service.
\<close>

theorem C7_plain_errors_become_results:
  assumes "try_block ver pf ev a (clock w) w = (Inl e, w')" and "plain e"
  shows "\<exists>res. generateResponse ver pf ev a w = (Inr res, w') \<and>
           catch_block ver pf (modelName a) (clock w' - clock w) e = Inr res \<and>
           text_js res \<noteq> [] \<and> durationMs res = clock w' - clock w \<and>
           (case e of
              NonError \<Rightarrow> error res = Some (JStr (asc ''Unknown Gemini error''))
            | JsError m \<Rightarrow>
                error res \<in> {Some (JStr (asc ''API key not valid'')),
                  Some (JStr (asc ''Rate limit exceeded'')), Some (JStr (asc ''Model not found'')),
                  Some (JStr (asc ''Network error'')), Some m}) \<and>
           (ver = Revised \<longrightarrow> routes_to_gemini toLowerCase a \<longrightarrow>
              generateResponse_router toLowerCase generateOpenAIResponse pf ev a w = (Inr res, w'))"
proof (cases e)
  case NonError
  then show ?thesis
    using assms(1)
    by (auto simp: generateResponse_def generateResponse_router_def catch_block_NonError
        texts_not_Nil)
next
  case (JsError m)
  with assms(2) obtain s where m: "m = JStr s" by (cases m) auto
  show ?thesis
    using assms(1)
    by (auto simp: JsError m generateResponse_def generateResponse_router_def
        catch_block_string texts_not_Nil)
qed

text \<open>
  The network is down: \<open>fetch\<close> rejects with an Error that names it, the call returns the
  result for a network error after the 30 ms that \<open>fetch\<close> took, and so does the router,
  for a model name in lower case.
\<close>

theorem C7_witness:
  "try_block Revised sample_platform offline (example_args (Some (asc ''k'')) None)
     (clock world0) world0 =
     (Inl (JsError (JStr (asc ''Failed to fetch''))),
      tick 30 (world0\<lparr>requests := requests world0 @
        [build_request Revised (example_args (Some (asc ''k'')) None) (asc ''k'')]\<rparr>)) \<and>
   plain (JsError (JStr (asc ''Failed to fetch''))) \<and>
   fst (generateResponse Revised sample_platform offline
     (example_args (Some (asc ''k'')) None) world0) =
     Inr \<lparr>text_js = text_network Revised, durationMs = 30,
          error = Some (JStr (asc ''Network error''))\<rparr> \<and>
   fst (generateResponse_router (\<lambda>s. s) (\<lambda>a w. (Inl NonError, w)) sample_platform offline
     (example_args (Some (asc ''k'')) None) world0) =
     Inr \<lparr>text_js = text_network Revised, durationMs = 30,
          error = Some (JStr (asc ''Network error''))\<rparr>"
proof -
  let ?a = "example_args (Some (asc ''k'')) None"
  let ?w = "tick 30 (world0\<lparr>requests := requests world0 @
              [build_request Revised ?a (asc ''k'')]\<rparr>)"
  have h: "try_block Revised sample_platform offline ?a (clock world0) world0 =
             (Inl (JsError (JStr (asc ''Failed to fetch''))), ?w)"
    by (rule offline_throws)
  have p: "plain (JsError (JStr (asc ''Failed to fetch'')))"
    by simp
  have r: "routes_to_gemini (\<lambda>s. s) ?a"
    by (simp add: routes_to_gemini_def example_args_def asc_def)
  have d: "clock ?w - clock world0 = 30"
    by (simp add: tick_def world0_def)
  have c: "catch_block Revised sample_platform (modelName ?a) 30
             (JsError (JStr (asc ''Failed to fetch''))) =
           Inr \<lparr>text_js = text_network Revised, durationMs = 30,
                error = Some (JStr (asc ''Network error''))\<rparr>"
    by (simp add: catch_block_string kw_key_def kw_model_def kw_network_def asc_def)
  obtain res where
    g: "generateResponse Revised sample_platform offline ?a world0 = (Inr res, ?w)"
    and k: "catch_block Revised sample_platform (modelName ?a) (clock ?w - clock world0)
              (JsError (JStr (asc ''Failed to fetch''))) = Inr res"
    and o: "generateResponse_router (\<lambda>s. s) (\<lambda>a w. (Inl NonError, w)) sample_platform offline
              ?a world0 = (Inr res, ?w)"
    using C7_plain_errors_become_results [OF h p, of "\<lambda>s. s" "\<lambda>a w. (Inl NonError, w)"] r
    by auto
  from k c d have "res = \<lparr>text_js = text_network Revised, durationMs = 30,
                          error = Some (JStr (asc ''Network error''))\<rparr>"
    by simp
  then show ?thesis
    using h p g o by simp
qed

lemma step_done_failing:
  "line_step pf failing (asc ''data: [DONE]'') (t, w) =
     Raise (JsError JUndefined) (t, w\<lparr>calls := calls w @ [([], t, True)]\<rparr>)"
  by (simp add: asc_def line_step_def trim_def isWhiteSpace_def startsWith_def failing_def Let_def)

text \<open>
  C7, as stated, fails. A stream that ends with the sentinel, and a callback that throws an
  Error whose message is \<open>undefined\<close> on the call with \<open>isComplete = true\<close>: that call is
  outside the inner \<open>try\<close>, the \<open>catch\<close> block calls \<open>includes\<close> on the message, and the
  TypeError of that call reaches the caller.
\<close>

theorem C7_counterexample:
  "fst (generateResponse Revised sample_platform (serving (streamed [(0, done_frame)]))
     (example_args (Some (asc ''k'')) (Some failing)) world0) =
   Inl (TypeError sample_platform (ReadOfNullish (asc ''includes'')))"
proof -
  have l: "split_nl (decode done_frame) = [asc ''data: [DONE]'', []]"
    by (simp add: done_frame_def bytes_def asc_def decode_def utf8_handler_def utf8_lead_def
        utf8_init_def strip_bom_def utf16_def)
  have r: "read_loop pf failing [(0, done_frame)] (0, None) ([], w) =
           (Some (JsError JUndefined), [], tick 0 w\<lparr>calls := calls w @ [([], [], True)]\<rparr>)" for pf w
    by (simp add: l step_done_failing tick_def)
  have t: "try_block Revised sample_platform (serving (streamed [(0, done_frame)]))
             (example_args (Some (asc ''k'')) (Some failing)) t w =
           (Inl (JsError JUndefined),
            tick 0 (tick 100 (w\<lparr>requests := requests w @ [build_request Revised
              (example_args (Some (asc ''k'')) (Some failing)) (asc ''k'')]\<rparr>))
            \<lparr>calls := calls w @ [([], [], True)]\<rparr>)" for t w
    by (simp add: try_block_def read_response_def example_args_def serving_def streamed_def
        ok_def trim_def asc_def isWhiteSpace_def Let_def r tick_def del: read_loop.simps)
  show ?thesis
    by (simp add: generateResponse_def t catch_block_def message_includes_def or_else_def)
qed

text \<open>
  C8. In every result that \<open>generateResponse\<close> returns with an error tag, the text is not the
  empty string.
\<close>

theorem C8_tagged_result_has_text:
  "fst (generateResponse ver pf ev a w) = Inr res \<Longrightarrow> error res \<noteq> None \<Longrightarrow> text_js res \<noteq> []"
  by (auto simp: generateResponse_def Let_def dest: catch_block_result(1) try_block_error
      split: prod.splits sum.splits)

text \<open>A call of the earlier copy with no key: the result is tagged, and has a text.\<close>

theorem C8_witness:
  "fst (generateResponse Earlier sample_platform offline (example_args None None) world0) =
     Inr \<lparr>text_js = text_auth Earlier, durationMs = 0,
          error = Some (JStr (asc ''API key not valid''))\<rparr> \<and>
   error \<lparr>text_js = text_auth Earlier, durationMs = 0,
          error = Some (JStr (asc ''API key not valid''))\<rparr> \<noteq> None \<and>
   text_js \<lparr>text_js = text_auth Earlier, durationMs = 0 :: real,
            error = Some (JStr (asc ''API key not valid''))\<rparr> \<noteq> []"
proof -
  have h: "fst (generateResponse Earlier sample_platform offline (example_args None None) world0) =
     Inr \<lparr>text_js = text_auth Earlier, durationMs = 0,
          error = Some (JStr (asc ''API key not valid''))\<rparr>"
    by (simp add: generateResponse_def try_block_def example_args_def catch_block_string
        key_unset_is_key_error)
  have e: "error \<lparr>text_js = text_auth Earlier, durationMs = 0 :: real,
          error = Some (JStr (asc ''API key not valid''))\<rparr> \<noteq> None"
    by simp
  show ?thesis
    using h e C8_tagged_result_has_text [OF h e] by simp
qed

text \<open>
  C10. When \<open>apiKey\<close> is \<open>undefined\<close>, empty or made of white space only, the call issues
  no request (the list of requests is as it was), and it returns a result that has the tag
  \<open>API key not valid\<close> and the invalid-key message of its copy as text.
\<close>

theorem C10_missing_key:
  assumes "case apiKey a of None \<Rightarrow> True | Some key \<Rightarrow> \<forall>c\<in>set key. isWhiteSpace c"
  shows "\<exists>res. fst (generateResponse ver pf ev a w) = Inr res \<and>
           error res = Some (JStr (asc ''API key not valid'')) \<and>
           text_js res = text_auth ver \<and>
           requests (snd (generateResponse ver pf ev a w)) = requests w"
proof -
  have "try_block ver pf ev a (clock w) w = (Inl (JsError (JStr (msg_key_unset ver))), w)"
    using assms by (auto simp: try_block_def trim_blank split: option.splits)
  then show ?thesis
    by (simp add: generateResponse_def catch_block_string key_unset_is_key_error)
qed

text \<open>A key of two spaces.\<close>

theorem C10_witness:
  "(case apiKey (example_args (Some (asc ''  '')) None) of None \<Rightarrow> True
    | Some key \<Rightarrow> \<forall>c\<in>set key. isWhiteSpace c) \<and>
   fst (generateResponse Revised sample_platform offline
     (example_args (Some (asc ''  '')) None) world0) =
     Inr \<lparr>text_js = text_auth Revised, durationMs = 0,
          error = Some (JStr (asc ''API key not valid''))\<rparr> \<and>
   requests (snd (generateResponse Revised sample_platform offline
     (example_args (Some (asc ''  '')) None) world0)) = []"
proof -
  have h: "case apiKey (example_args (Some (asc ''  '')) None) of None \<Rightarrow> True
           | Some key \<Rightarrow> \<forall>c\<in>set key. isWhiteSpace c"
    by (simp add: example_args_def asc_def isWhiteSpace_def)
  have d: "durationMs res = 0" if "fst (generateResponse Revised sample_platform offline
     (example_args (Some (asc ''  '')) None) world0) = Inr res" for res
    using that
    by (simp add: generateResponse_def try_block_def example_args_def trim_def asc_def
        isWhiteSpace_def catch_block_string msg_key_unset_def kw_key_def)
       (auto)
  obtain res where
    g: "fst (generateResponse Revised sample_platform offline
          (example_args (Some (asc ''  '')) None) world0) = Inr res"
    and e: "error res = Some (JStr (asc ''API key not valid''))"
    and t: "text_js res = text_auth Revised"
    and q: "requests (snd (generateResponse Revised sample_platform offline
          (example_args (Some (asc ''  '')) None) world0)) = requests world0"
    using C10_missing_key [OF h, of Revised sample_platform offline world0] by blast
  have "res = \<lparr>text_js = text_auth Revised, durationMs = 0,
                error = Some (JStr (asc ''API key not valid''))\<rparr>"
    using e t d [OF g] by (cases res) simp
  then show ?thesis
    using h g q by (simp add: world0_def)
qed

section \<open>Strings and lines\<close>

lemma split_nl_not_Nil: "split_nl s \<noteq> []"
  by (induction s) (auto split: list.splits)

lemma split_nl_LF: "split_nl (a @ 0x0A # b) = split_nl a @ split_nl b"
proof (induction a)
  case Nil
  then show ?case by simp
next
  case (Cons c a)
  then show ?case using split_nl_not_Nil [of a] by (auto split: list.splits)
qed

lemma trim_leading: "isWhiteSpace c \<Longrightarrow> trim (c # l) = trim l"
  by (simp add: trim_def)

section \<open>The for loop\<close>

lemma line_step_no_frame: "\<not> is_frame l \<Longrightarrow> line_step pf cb l s = Next s"
  by (simp add: line_step_def is_frame_def Let_def)

lemma line_step_blank: "line_step pf cb [] s = Next s"
  by (simp add: line_step_def trim_def startsWith_def asc_def)

lemma line_step_malformed:
  assumes "startsWith (trim bad) (asc ''data: '')"
    and "drop 6 (trim bad) \<noteq> asc ''[DONE]''"
    and "JSON_parse pf (drop 6 (trim bad)) = Inl msg"
  shows "line_step pf cb bad s = Next s"
  using assms by (simp add: line_step_def Let_def)

lemma line_step_trim: "trim l = trim l' \<Longrightarrow> line_step pf cb l s = line_step pf cb l' s"
  by (simp add: line_step_def)

lemma line_step_sentinel:
  "is_sentinel l \<Longrightarrow> \<exists>s'. line_step pf cb l s = Break s' \<or> (\<exists>e. line_step pf cb l s = Raise e s')"
  by (auto simp: line_step_def is_sentinel_def is_frame_def Let_def split: option.splits)

lemma line_step_no_sentinel:
  "\<not> is_sentinel l \<Longrightarrow> \<exists>s'. line_step pf cb l s = Next s'"
  by (auto simp: line_step_def is_sentinel_def is_frame_def Let_def split: option.splits sum.splits)

lemma for_lines_skip:
  "(\<And>s. line_step pf cb l s = Next s) \<Longrightarrow>
   for_lines pf cb (pre @ l # post) s = for_lines pf cb (pre @ post) s"
  by (induction pre arbitrary: s) (auto split: step.splits)

lemma for_lines_trim:
  "map trim ls = map trim ls' \<Longrightarrow> for_lines pf cb ls s = for_lines pf cb ls' s"
proof (induction ls arbitrary: ls' s)
  case Nil
  then show ?case by simp
next
  case (Cons l ls)
  then obtain l' ls'' where ls': "ls' = l' # ls''" and t: "trim l = trim l'"
    and r: "map trim ls = map trim ls''"
    by (cases ls') auto
  show ?case using Cons.IH [OF r] line_step_trim [OF t, of pf cb s]
    by (simp add: ls' split: step.splits)
qed

lemma for_lines_append_no_sentinel:
  "\<forall>l\<in>set ls1. \<not> is_sentinel l \<Longrightarrow>
   \<exists>s'. for_lines pf cb ls1 s = (None, s') \<and> for_lines pf cb (ls1 @ ls2) s = for_lines pf cb ls2 s'"
proof (induction ls1 arbitrary: s)
  case Nil
  then show ?case by simp
next
  case (Cons l ls1)
  obtain s1 where s1: "line_step pf cb l s = Next s1"
    using line_step_no_sentinel [of l pf cb s] Cons.prems by auto
  show ?case using Cons.IH [of s1] Cons.prems by (simp add: s1)
qed

lemma for_lines_append_sentinel:
  "\<exists>l\<in>set ls1. is_sentinel l \<Longrightarrow> for_lines pf cb (ls1 @ ls2) s = for_lines pf cb ls1 s"
proof (induction ls1 arbitrary: s)
  case Nil
  then show ?case by simp
next
  case (Cons l ls1)
  show ?case
  proof (cases "is_sentinel l")
    case True
    then show ?thesis using line_step_sentinel [of l pf cb s] by auto
  next
    case False
    then obtain s1 where s1: "line_step pf cb l s = Next s1"
      using line_step_no_sentinel [of l pf cb s] by auto
    from False Cons.prems have "\<exists>l\<in>set ls1. is_sentinel l" by auto
    then show ?thesis using Cons.IH [of s1] by (simp add: s1)
  qed
qed

lemma for_lines_no_frames:
  "\<forall>l\<in>set ls. \<not> is_frame l \<Longrightarrow> for_lines pf cb ls s = (None, s)"
  by (induction ls) (auto simp: line_step_no_frame)

lemma for_lines_filter: "for_lines pf cb (filter is_frame ls) s = for_lines pf cb ls s"
  by (induction ls arbitrary: s) (auto simp: line_step_no_frame split: step.splits)

lemma for_lines_frames:
  "filter is_frame ls = filter is_frame ls' \<Longrightarrow> for_lines pf cb ls s = for_lines pf cb ls' s"
  by (metis for_lines_filter)

lemma read_loop_same_lines:
  assumes "\<And>s. for_lines pf cb (split_nl (decode c)) s = for_lines pf cb (split_nl (decode c')) s"
  shows "read_loop pf cb (rs1 @ (d, c) # rs2) fin s = read_loop pf cb (rs1 @ (d, c') # rs2) fin s"
  by (induction rs1 arbitrary: s) (auto simp: assms split: prod.splits option.splits)

section \<open>The examples, line by line\<close>

lemmas utf8_defs = decode_def utf8_handler_def utf8_lead_def utf8_init_def strip_bom_def utf16_def

lemma lines_done: "split_nl (decode done_frame) = [asc ''data: [DONE]'', []]"
  by (simp add: done_frame_def bytes_def asc_def utf8_defs)

lemma lines_hi: "split_nl (decode hi_frame) = [asc ''data: '' @ hi_payload, []]"
  by (simp add: hi_frame_def hi_payload_def bytes_def asc_def utf8_defs)

lemma lines_hi_done:
  "split_nl (decode (hi_frame @ done_frame)) = [asc ''data: '' @ hi_payload, asc ''data: [DONE]'', []]"
  by (simp add: hi_frame_def done_frame_def hi_payload_def bytes_def asc_def utf8_defs)

lemma lines_head: "split_nl (decode hi_head) = [asc ''da'']"
  by (simp add: hi_head_def bytes_def asc_def utf8_defs)

lemma lines_tail: "split_nl (decode hi_tail) = [asc ''ta: '' @ hi_payload, []]"
  by (simp add: hi_tail_def hi_payload_def bytes_def asc_def utf8_defs)

lemma lines_cut:
  "split_nl (decode (cut_frame @ hi_frame)) =
     [] @ (asc ''data: {'' @ [0x22] @ asc ''candidates'' @ [0x22] @ asc '':'') #
       [asc ''data: '' @ hi_payload, []]"
  by (simp add: cut_frame_def hi_frame_def hi_payload_def bytes_def asc_def utf8_defs)

lemma head_tail: "hi_head @ hi_tail = hi_frame"
  by (simp add: hi_head_def hi_tail_def hi_frame_def bytes_def)

lemma hi_text: "candidate_text pf hi_value = Inr (asc ''Hi'')"
  by (simp add: candidate_text_def hi_value_def member_def asc_def Let_def)

lemma step_done:
  "line_step pf silent (asc ''data: [DONE]'') (t, w) =
     Break (t, w\<lparr>calls := calls w @ [([], t, True)]\<rparr>)"
  by (simp add: asc_def line_step_def trim_def isWhiteSpace_def startsWith_def silent_def Let_def)

lemma step_hi:
  "line_step sample_platform cb (asc ''data: '' @ hi_payload) (t, w) =
     Next (t @ asc ''Hi'', w\<lparr>calls := calls w @ [(asc ''Hi'', t @ asc ''Hi'', False)]\<rparr>)"
proof -
  have a: "trim (asc ''data: '' @ hi_payload) = asc ''data: '' @ hi_payload"
    by (simp add: asc_def trim_def isWhiteSpace_def hi_payload_def)
  have b: "hi_payload \<noteq> asc ''[DONE]''"
    by (simp add: asc_def hi_payload_def)
  show ?thesis
    by (simp add: line_step_def a b startsWith_def sample_platform_def hi_text Let_def)
       (simp add: asc_def)
qed

lemma not_frame_head: "\<not> is_frame (asc ''da'')"
  by (simp add: is_frame_def trim_def startsWith_def asc_def isWhiteSpace_def)

lemma not_frame_tail: "\<not> is_frame (asc ''ta: '' @ hi_payload)"
  by (simp add: is_frame_def trim_def startsWith_def asc_def isWhiteSpace_def hi_payload_def)

lemma not_frame_blank: "\<not> is_frame []"
  by (simp add: is_frame_def trim_def startsWith_def asc_def)

lemma sentinel_done: "is_sentinel (asc ''data: [DONE]'')"
  by (simp add: is_sentinel_def is_frame_def trim_def startsWith_def asc_def isWhiteSpace_def)

lemma no_sentinel_hi: "\<not> is_sentinel (asc ''data: '' @ hi_payload)"
  by (simp add: is_sentinel_def is_frame_def trim_def startsWith_def asc_def isWhiteSpace_def
      hi_payload_def)

lemma no_sentinel_blank: "\<not> is_sentinel []"
  by (simp add: is_sentinel_def not_frame_blank)

lemma trim_Hi: "trim (asc ''Hi'') \<noteq> []"
  by (simp add: trim_def asc_def isWhiteSpace_def)

lemma trim_Nil: "trim [] = []"
  by (simp add: trim_def)

lemma ok_streamed: "ok (streamed rs)"
  by (simp add: ok_def streamed_def)

lemma try_block_served:
  "ok r \<Longrightarrow> try_block ver pf (serving r) (example_args (Some (asc ''k'')) cb) t w =
     read_response ver pf (example_args (Some (asc ''k'')) cb) r t
       (tick 100 (w\<lparr>requests := requests w @
          [build_request ver (example_args (Some (asc ''k'')) cb) (asc ''k'')]\<rparr>))"
  by (simp add: try_block_def example_args_def serving_def trim_def asc_def isWhiteSpace_def Let_def)

lemma read_response_streamed:
  "read_response ver pf (example_args key (Some cb)) (streamed rs) t w =
     (case read_loop pf cb rs (0, None) ([], w) of
        (Some e, s) \<Rightarrow> (Inl e, snd s)
      | (None, s) \<Rightarrow>
          if trim (fst s) = [] then (Inl (JsError (JStr (msg_empty ver))), snd s)
          else (Inr \<lparr>text_js = fst s, durationMs = clock w - t, error = None\<rparr>, snd s))"
  by (simp add: read_response_def example_args_def streamed_def Let_def
      split: prod.splits option.splits)

lemma empty_is_model_error:
  "catch_block ver pf m d (JsError (JStr (msg_empty ver))) =
     Inr \<lparr>text_js = text_model ver m, durationMs = d,
          error = Some (JStr (asc ''Model not found''))\<rparr>"
  by (cases ver) (simp_all add: catch_block_string msg_empty_def kw_key_def kw_model_def asc_def)

section \<open>Malformed frames\<close>

lemma lines_frame_head:
  "split_nl (decode frame_head) = [asc ''data: {'' @ [0x22] @ asc ''candi'']"
  by (simp add: frame_head_def bytes_def asc_def utf8_defs)

lemma lines_empty_chunk: "split_nl (decode []) = [[]]"
  by (simp add: utf8_defs)

text \<open>
  C6. A frame that is no sentinel and whose payload \<open>JSON.parse\<close> rejects is passed over:
  the loop goes on with the next line in the state it was in (no text, no callback); the
  lines of its chunk run as they do without it; after them the loop reads on, whether the
  chunk has other lines or not; and the stream runs exactly as it does with any chunk in
  its place that has the other frames of the chunk (the empty chunk, when there are none),
  whatever comes before and after.
\<close>

theorem C6_malformed_frame_is_skipped:
  assumes "startsWith (trim bad) (asc ''data: '')"
    and "drop 6 (trim bad) \<noteq> asc ''[DONE]''"
    and "JSON_parse pf (drop 6 (trim bad)) = Inl msg"
    and "split_nl (decode c) = pre @ bad # post"
  shows "line_step pf cb bad s = Next s \<and>
         for_lines pf cb (pre @ bad # post) s = for_lines pf cb (pre @ post) s \<and>
         read_loop pf cb ((d, c) # rs) fin s =
           (case for_lines pf cb (pre @ post) (fst s, tick d (snd s)) of
              (Some e, s') \<Rightarrow> (Some e, s')
            | (None, s') \<Rightarrow> read_loop pf cb rs fin s') \<and>
         (filter is_frame (split_nl (decode c')) = filter is_frame (pre @ post) \<longrightarrow>
            read_loop pf cb (rs1 @ (d, c) # rs2) fin s =
            read_loop pf cb (rs1 @ (d, c') # rs2) fin s)"
proof -
  have skip: "for_lines pf cb (pre @ bad # post) s' = for_lines pf cb (pre @ post) s'" for s'
    by (rule for_lines_skip) (rule line_step_malformed [OF assms(1-3)])
  have same: "for_lines pf cb (split_nl (decode c)) s' = for_lines pf cb (split_nl (decode c')) s'"
    if "filter is_frame (split_nl (decode c')) = filter is_frame (pre @ post)" for s'
    using for_lines_frames [OF that, of pf cb s'] by (simp add: assms(4) skip)
  have "line_step pf cb bad s = Next s"
    by (rule line_step_malformed [OF assms(1-3)])
  moreover have "read_loop pf cb ((d, c) # rs) fin s =
           (case for_lines pf cb (pre @ post) (fst s, tick d (snd s)) of
              (Some e, s') \<Rightarrow> (Some e, s')
            | (None, s') \<Rightarrow> read_loop pf cb rs fin s')"
    by (simp add: assms(4) skip)
  moreover have "read_loop pf cb (rs1 @ (d, c) # rs2) fin s =
            read_loop pf cb (rs1 @ (d, c') # rs2) fin s"
    if "filter is_frame (split_nl (decode c')) = filter is_frame (pre @ post)"
    by (rule read_loop_same_lines) (rule same [OF that])
  ultimately show ?thesis
    using skip by blast
qed

text \<open>
  The head of a frame that a read cut arrives as a chunk of its own, and a good frame
  follows in the next chunk: the loop reads on, the callback is called for the good frame,
  and the stream runs as it does with the empty chunk in place of the first.
\<close>

theorem C6_witness:
  "split_nl (decode frame_head) = [asc ''data: {'' @ [0x22] @ asc ''candi''] \<and>
   read_loop sample_platform silent [(0, frame_head), (0, hi_frame)] (0, None) ([], world0) =
   read_loop sample_platform silent [(0, []), (0, hi_frame)] (0, None) ([], world0) \<and>
   read_loop sample_platform silent [(0, frame_head), (0, hi_frame)] (0, None) ([], world0) =
   (None, asc ''Hi'', world0\<lparr>calls := [(asc ''Hi'', asc ''Hi'', False)]\<rparr>)"
proof -
  let ?bad = "asc ''data: {'' @ [0x22] @ asc ''candi''"
  have a: "startsWith (trim ?bad) (asc ''data: '')"
    by (simp add: trim_def asc_def isWhiteSpace_def startsWith_def)
  have b: "drop 6 (trim ?bad) \<noteq> asc ''[DONE]''"
    by (simp add: trim_def asc_def isWhiteSpace_def)
  have c: "JSON_parse sample_platform (drop 6 (trim ?bad)) = Inl (asc ''Unexpected token'')"
    by (simp add: trim_def asc_def isWhiteSpace_def sample_platform_def hi_payload_def)
  have l: "split_nl (decode frame_head) = [] @ ?bad # []"
    by (simp add: lines_frame_head)
  have f: "filter is_frame (split_nl (decode [])) = filter is_frame ([] @ [])"
    by (simp add: lines_empty_chunk not_frame_blank)
  have v: "read_loop sample_platform silent [(0, hi_frame)] (0, None) ([], world0) =
           (None, asc ''Hi'', world0\<lparr>calls := [(asc ''Hi'', asc ''Hi'', False)]\<rparr>)"
    by (simp add: lines_hi step_hi line_step_blank tick_def world0_def)
  have t: "tick 0 w = w" for w
    by (simp add: tick_def)
  have one: "read_loop sample_platform silent ((0, frame_head) # [(0, hi_frame)]) (0, None)
               ([], world0) =
             read_loop sample_platform silent [(0, hi_frame)] (0, None) ([], world0)"
    using C6_malformed_frame_is_skipped [OF a b c l, of silent "([], world0)" 0
        "[(0, hi_frame)]" "(0, None)"]
    by (simp add: t del: read_loop.simps)
  have two: "read_loop sample_platform silent ([] @ (0, frame_head) # [(0, hi_frame)]) (0, None)
               ([], world0) =
             read_loop sample_platform silent ([] @ (0, []) # [(0, hi_frame)]) (0, None)
               ([], world0)"
    using C6_malformed_frame_is_skipped [OF a b c l, of silent "([], world0)" 0
        "[(0, hi_frame)]" "(0, None)" "[]" "[]" "[(0, hi_frame)]"] f
    by blast
  show ?thesis
    using one two v by (simp add: lines_frame_head del: read_loop.simps)
qed

section \<open>Sentinels\<close>

lemma loop_hi_done_done:
  "read_loop sample_platform silent [(0, hi_frame @ done_frame), (0, done_frame)] (0, None) ([], w) =
     (None, asc ''Hi'', w\<lparr>calls := calls w @
        [(asc ''Hi'', asc ''Hi'', False), ([], asc ''Hi'', True), ([], asc ''Hi'', True)]\<rparr>)"
  by (simp add: lines_hi_done lines_done step_hi step_done tick_def)

lemma loop_done_hi:
  "read_loop sample_platform silent [(0, done_frame), (0, hi_frame)] (0, None) ([], w) =
     (None, asc ''Hi'', w\<lparr>calls := calls w @ [([], [], True), (asc ''Hi'', asc ''Hi'', False)]\<rparr>)"
  by (simp add: lines_hi lines_done step_hi step_done line_step_blank tick_def)

text \<open>
  C2 (the code departs from the claim). \<open>break\<close> leaves the \<open>for\<close> loop only, and the
  \<open>while\<close> loop reads on. A stream whose first chunk holds a text frame and the sentinel and
  whose second chunk holds the sentinel again: the callback is called with
  \<open>isComplete = true\<close> twice.
\<close>

theorem C2_two_sentinels_two_terminal_calls:
  "calls (snd (generateResponse ver sample_platform
       (serving (streamed [(0, hi_frame @ done_frame), (0, done_frame)]))
       (example_args (Some (asc ''k'')) (Some silent)) world0))
   = [(asc ''Hi'', asc ''Hi'', False), ([], asc ''Hi'', True), ([], asc ''Hi'', True)]"
  by (simp add: generateResponse_def try_block_served ok_streamed read_response_streamed
      loop_hi_done_done trim_Hi world0_def tick_def del: read_loop.simps)

text \<open>
  C5 (the code departs from the claim). The sentinel ends the lines of its own chunk only.
  A stream whose first chunk is the sentinel and whose second chunk is a text frame: the
  frame is processed, the callback is called for it after the terminal call, and its text
  is the result.
\<close>

theorem C5_frame_after_sentinel_is_processed:
  "calls (snd (generateResponse ver sample_platform
       (serving (streamed [(0, done_frame), (0, hi_frame)]))
       (example_args (Some (asc ''k'')) (Some silent)) world0))
     = [([], [], True), (asc ''Hi'', asc ''Hi'', False)] \<and>
   fst (generateResponse ver sample_platform
       (serving (streamed [(0, done_frame), (0, hi_frame)]))
       (example_args (Some (asc ''k'')) (Some silent)) world0) =
     Inr \<lparr>text_js = asc ''Hi'', durationMs = 100, error = None\<rparr>"
  by (simp add: generateResponse_def try_block_served ok_streamed read_response_streamed
      loop_done_hi trim_Hi world0_def tick_def del: read_loop.simps)

section \<open>Empty responses\<close>

text \<open>
  C3 (the code departs from the claim). The message thrown for an empty response contains
  the substring by which the \<open>catch\<close> block recognises a missing model. A response with
  status 200 whose only candidate has no content: the result is tagged \<open>Model not found\<close>,
  and its text says that the model does not exist.
\<close>

theorem C3_empty_response_is_tagged_model_not_found:
  "fst (generateResponse ver pf (serving (answered 200 blocked))
       (example_args (Some (asc ''k'')) None) world0) =
     Inr \<lparr>text_js = text_model ver (asc ''gemini-pro''), durationMs = 140,
          error = Some (JStr (asc ''Model not found''))\<rparr>"
proof -
  have a: "ok (answered 200 v)" for v
    by (simp add: ok_def answered_def)
  have b: "candidate_text pf blocked = Inr []"
    by (simp add: candidate_text_def blocked_def member_def asc_def)
  have c: "read_response ver pf (example_args (Some (asc ''k'')) None) (answered 200 blocked) t w =
           (Inl (JsError (JStr (msg_empty ver))), tick 40 w)" for t w
    by (simp add: read_response_def example_args_def answered_def b trim_def)
  show ?thesis
    by (simp add: generateResponse_def try_block_served a c empty_is_model_error)
       (simp add: example_args_def tick_def world0_def)
qed

section \<open>HTTP error statuses\<close>

text \<open>
  C4 (the code departs from the claim). The message thrown for status 429 is in Chinese,
  and the \<open>catch\<close> block looks for \<open>429\<close> and \<open>Rate limit\<close> in it: it finds them only if
  the body of the response supplies them. A response with status 429 and the body of a
  project out of quota: the tag of the result is the message thrown, not
  \<open>Rate limit exceeded\<close>.
\<close>

theorem C4_status_429_is_not_tagged_rate_limit:
  "fst (generateResponse ver pf (serving (answered 429 exhausted))
       (example_args (Some (asc ''k'')) None) world0) =
     Inr \<lparr>text_js = text_generic ver
            (msg_429 @ asc ''Resource has been exhausted (e.g. check quota).''),
          durationMs = 140,
          error = Some (JStr (msg_429 @ asc ''Resource has been exhausted (e.g. check quota).''))\<rparr> \<and>
   msg_429 @ asc ''Resource has been exhausted (e.g. check quota).'' \<noteq> asc ''Rate limit exceeded''"
proof -
  have nok: "\<not> ok (answered 429 exhausted)"
    by (simp add: ok_def answered_def)
  have m: "errorMessage_of pf (answered 429 exhausted) =
           Inr (JStr (asc ''Resource has been exhausted (e.g. check quota).''))"
    by (simp add: errorMessage_of_def answered_def exhausted_def member_def Let_def asc_def)
  have h: "http_error pf model (answered 429 exhausted) =
           JsError (JStr (msg_429 @ asc ''Resource has been exhausted (e.g. check quota).''))"
    for model
    by (simp add: http_error_def m) (simp add: answered_def)
  have t: "try_block ver pf (serving (answered 429 exhausted)) (example_args (Some (asc ''k'')) None) t w =
           (Inl (JsError (JStr (msg_429 @ asc ''Resource has been exhausted (e.g. check quota).''))),
            tick 40 (tick 100 (w\<lparr>requests := requests w @
              [build_request ver (example_args (Some (asc ''k'')) None) (asc ''k'')]\<rparr>)))" for t w
    by (simp add: try_block_def example_args_def serving_def trim_def asc_def isWhiteSpace_def
        Let_def nok h) (simp add: answered_def)
  have c: "catch_block ver pf model d
             (JsError (JStr (msg_429 @ asc ''Resource has been exhausted (e.g. check quota).''))) =
           Inr \<lparr>text_js = text_generic ver
                  (msg_429 @ asc ''Resource has been exhausted (e.g. check quota).''),
                durationMs = d,
                error = Some (JStr (msg_429 @ asc ''Resource has been exhausted (e.g. check quota).''))\<rparr>"
    for model d
    by (simp add: catch_block_string msg_429_def kw_key_def kw_model_def kw_network_def asc_def)
  have n: "msg_429 @ asc ''Resource has been exhausted (e.g. check quota).'' \<noteq> asc ''Rate limit exceeded''"
    by (simp add: msg_429_def asc_def)
  show ?thesis
    by (simp add: generateResponse_def t c n) (simp add: tick_def world0_def)
qed

section \<open>The duration\<close>

lemma loop_slow_hi:
  "read_loop sample_platform silent [(1000, hi_frame)] (0, None) ([], w) =
     (None, asc ''Hi'', w\<lparr>clock := clock w + 1000,
        calls := calls w @ [(asc ''Hi'', asc ''Hi'', False)]\<rparr>)"
  by (simp add: lines_hi step_hi line_step_blank tick_def)

lemma loop_slow_done:
  "read_loop sample_platform silent [(1000, done_frame)] (0, None) ([], w) =
     (None, [], w\<lparr>clock := clock w + 1000, calls := calls w @ [([], [], True)]\<rparr>)"
  by (simp add: lines_done step_done tick_def)

text \<open>
  C9 (the code departs from the claim). On the path of success \<open>durationMs\<close> is computed
  before the body is read. A response that arrives after 100 ms and whose only chunk
  arrives 1000 ms later: the call succeeds 1100 ms after its start and returns a duration
  of 100 ms. On the path of failure the duration is measured in the \<open>catch\<close> block: the
  same timing with a stream that yields no text gives 1100 ms.
\<close>

theorem C9_duration_leaves_out_the_stream:
  "fst (generateResponse ver sample_platform (serving (streamed [(1000, hi_frame)]))
       (example_args (Some (asc ''k'')) (Some silent)) world0) =
     Inr \<lparr>text_js = asc ''Hi'', durationMs = 100, error = None\<rparr> \<and>
   clock (snd (generateResponse ver sample_platform (serving (streamed [(1000, hi_frame)]))
       (example_args (Some (asc ''k'')) (Some silent)) world0)) - clock world0 = 1100 \<and>
   fst (generateResponse ver sample_platform (serving (streamed [(1000, done_frame)]))
       (example_args (Some (asc ''k'')) (Some silent)) world0) =
     Inr \<lparr>text_js = text_model ver (asc ''gemini-pro''), durationMs = 1100,
          error = Some (JStr (asc ''Model not found''))\<rparr>"
  by (simp add: generateResponse_def try_block_served ok_streamed read_response_streamed
      loop_slow_hi loop_slow_done trim_Hi trim_Nil world0_def tick_def empty_is_model_error
      del: read_loop.simps)
     (simp add: example_args_def)

section \<open>Chunk boundaries\<close>

subsection \<open>What the caller sees does not depend on the clock\<close>

lemma line_step_view:
  assumes "fst s = fst s'" and "calls (snd s) = calls (snd s')"
  shows "map_step (\<lambda>s. (fst s, calls (snd s))) (line_step pf cb l s) =
         map_step (\<lambda>s. (fst s, calls (snd s))) (line_step pf cb l s')"
  using assms by (simp add: line_step_def Let_def split: option.splits sum.splits)

lemma for_lines_view:
  assumes "fst s = fst s'" and "calls (snd s) = calls (snd s')"
  shows "observe (for_lines pf cb ls s) = observe (for_lines pf cb ls s')"
  using assms
proof (induction ls arbitrary: s s')
  case Nil
  then show ?case by (simp add: observe_def)
next
  case (Cons l ls)
  have v: "map_step (\<lambda>s. (fst s, calls (snd s))) (line_step pf cb l s) =
           map_step (\<lambda>s. (fst s, calls (snd s))) (line_step pf cb l s')"
    using Cons.prems by (rule line_step_view)
  show ?case
  proof (cases "line_step pf cb l s")
    case (Next s1)
    with v obtain s1' where n: "line_step pf cb l s' = Next s1'"
      and "fst s1 = fst s1'" "calls (snd s1) = calls (snd s1')"
      by (cases "line_step pf cb l s'") auto
    then show ?thesis using Cons.IH [of s1 s1'] Next by simp
  next
    case (Break s1)
    with v obtain s1' where n: "line_step pf cb l s' = Break s1'"
      and "fst s1 = fst s1'" "calls (snd s1) = calls (snd s1')"
      by (cases "line_step pf cb l s'") auto
    then show ?thesis using Break by (simp add: observe_def)
  next
    case (Raise e s1)
    with v obtain s1' where n: "line_step pf cb l s' = Raise e s1'"
      and "fst s1 = fst s1'" "calls (snd s1) = calls (snd s1')"
      by (cases "line_step pf cb l s'") auto
    then show ?thesis using Raise by (simp add: observe_def)
  qed
qed

lemma for_lines_tick:
  "observe (for_lines pf cb ls (fst s, tick d (snd s))) = observe (for_lines pf cb ls s)"
  by (rule for_lines_view) (simp_all add: tick_def)

lemma read_loop_no_frames:
  assumes "\<forall>r\<in>set rs. \<forall>l\<in>set (split_nl (decode (snd r))). \<not> is_frame l"
  shows "observe (read_loop pf cb rs fin s) = (snd fin, fst s, calls (snd s))"
  using assms
proof (induction rs arbitrary: s)
  case Nil
  then show ?case by (simp add: observe_def tick_def)
next
  case (Cons r rs)
  then show ?case by (simp add: for_lines_no_frames tick_def)
qed

lemma read_loop_single:
  "observe (read_loop pf cb [(d, c)] fin s) =
     (case for_lines pf cb (split_nl (decode c)) s of
        (Some e, s') \<Rightarrow> (Some e, fst s', calls (snd s'))
      | (None, s') \<Rightarrow> (snd fin, fst s', calls (snd s')))"
proof -
  let ?a = "for_lines pf cb (split_nl (decode c)) (fst s, tick d (snd s))"
  let ?b = "for_lines pf cb (split_nl (decode c)) s"
  have v: "observe ?a = observe ?b" by (rule for_lines_tick)
  obtain e t w where a: "?a = (e, t, w)" by (cases ?a) auto
  obtain e' t' w' where b: "?b = (e', t', w')" by (cases ?b) auto
  from v a b have eq: "e = e'" "t = t'" "calls w = calls w'" by (simp_all add: observe_def)
  show ?thesis using a b eq by (cases e') (simp_all add: observe_def tick_def)
qed

subsection \<open>Decoding across a line feed\<close>

lemma utf8_ok_init: "utf8_ok utf8_init"
  by (simp add: utf8_ok_def utf8_init_def)

lemma utf8_ok_lead: "utf8_ok (snd (utf8_lead b))"
  by (simp add: utf8_ok_def utf8_lead_def utf8_init_def)

lemma utf8_ok_handler: "utf8_ok st \<Longrightarrow> utf8_ok (snd (utf8_handler st b))"
  using utf8_ok_lead [of b]
  by (auto simp: utf8_handler_def Let_def utf8_ok_def utf8_init_def)

lemma utf8_lead_ascii: "b \<le> 0x7F \<Longrightarrow> utf8_lead b = ([unat b], utf8_init)"
  by (simp add: utf8_lead_def)

lemma utf8_handler_ascii:
  assumes "utf8_ok st" and "b \<le> 0x7F"
  shows "snd (utf8_handler st b) = utf8_init"
    and "\<exists>zs. fst (utf8_handler st b) = zs @ [unat b]"
proof -
  have lt: "bytes_needed st \<noteq> 0 \<Longrightarrow> b < lower_boundary st"
    using assms by (auto simp: utf8_ok_def word_le_nat_alt word_less_nat_alt)
  show "snd (utf8_handler st b) = utf8_init"
    using lt assms(2) by (auto simp: utf8_handler_def utf8_lead_ascii)
  show "\<exists>zs. fst (utf8_handler st b) = zs @ [unat b]"
    using lt assms(2) by (auto simp: utf8_handler_def utf8_lead_ascii)
qed

lemma utf8_run_ascii:
  assumes "utf8_ok st" and "b \<le> 0x7F"
  shows "utf8_run st (xs @ b # ys) = utf8_run st (xs @ [b]) @ utf8_run utf8_init ys"
  using assms(1)
proof (induction xs arbitrary: st)
  case Nil
  then show ?case using utf8_handler_ascii(1) [OF Nil assms(2)] by (simp add: utf8_init_def)
next
  case (Cons x xs)
  then show ?case using utf8_ok_handler [OF Cons.prems, of x] by simp
qed

lemma utf8_run_ascii_last:
  assumes "utf8_ok st" and "b \<le> 0x7F"
  shows "\<exists>zs. utf8_run st (xs @ [b]) = zs @ [unat b]"
  using assms(1)
proof (induction xs arbitrary: st)
  case Nil
  obtain zs where "fst (utf8_handler st b) = zs @ [unat b]"
    using utf8_handler_ascii(2) [OF Nil assms(2)] by blast
  then show ?case using utf8_handler_ascii(1) [OF Nil assms(2)] by (simp add: utf8_init_def)
next
  case (Cons x xs)
  obtain zs where "utf8_run (snd (utf8_handler st x)) (xs @ [b]) = zs @ [unat b]"
    using Cons.IH [OF utf8_ok_handler [OF Cons.prems]] by blast
  then show ?case by simp
qed

text \<open>
  The text of bytes that end in a line feed, followed by the text of more bytes in which a
  leading byte order mark is kept.
\<close>

lemma decode_after_LF:
  "decode (xs @ 0x0A # c2) = decode (xs @ [0x0A]) @ concat (map utf16 (utf8_run utf8_init c2))"
proof -
  have le: "(0x0A :: byte) \<le> 0x7F" by simp
  obtain zs where zs: "utf8_run utf8_init (xs @ [0x0A]) = zs @ [unat (0x0A :: byte)]"
    using utf8_run_ascii_last [OF utf8_ok_init le] by blast
  have run: "utf8_run utf8_init (xs @ 0x0A # c2) =
             utf8_run utf8_init (xs @ [0x0A]) @ utf8_run utf8_init c2"
    by (rule utf8_run_ascii [OF utf8_ok_init le])
  have strip: "strip_bom (A @ B) = strip_bom A @ B" if "A \<noteq> []" for A B
    using that by (cases A) (simp_all add: strip_bom_def)
  have "utf8_run utf8_init (xs @ [0x0A]) \<noteq> []" by (simp add: zs)
  then show ?thesis by (simp add: decode_def run strip)
qed

lemma decode_ends_LF: "\<exists>z. decode (xs @ [0x0A]) = z @ [0x0A]"
proof -
  have le: "(0x0A :: byte) \<le> 0x7F" by simp
  obtain zs where zs: "utf8_run utf8_init (xs @ [0x0A]) = zs @ [unat (0x0A :: byte)]"
    using utf8_run_ascii_last [OF utf8_ok_init le] by blast
  have "\<exists>ys. strip_bom (zs @ [unat (0x0A :: byte)]) = ys @ [10]"
    by (cases zs) (auto simp: strip_bom_def)
  then obtain ys where "strip_bom (utf8_run utf8_init (xs @ [0x0A])) = ys @ [10]"
    using zs by auto
  then show ?thesis by (simp add: decode_def utf16_def)
qed

lemma lines_with_mark:
  "map trim (split_nl (concat (map utf16 (utf8_run utf8_init c)))) = map trim (split_nl (decode c))"
proof (cases "utf8_run utf8_init c")
  case Nil
  then show ?thesis by (simp add: decode_def strip_bom_def)
next
  case (Cons x B)
  show ?thesis
  proof (cases "x = 0xFEFF")
    case False
    then show ?thesis using Cons by (simp add: decode_def strip_bom_def)
  next
    case True
    have d: "decode c = concat (map utf16 B)"
      using Cons True by (simp add: decode_def strip_bom_def)
    have u: "utf16 0xFEFF = [0xFEFF]" by (simp add: utf16_def)
    obtain l ls where sp: "split_nl (concat (map utf16 B)) = l # ls"
      using split_nl_not_Nil [of "concat (map utf16 B)"]
      by (cases "split_nl (concat (map utf16 B))") auto
    have ws: "isWhiteSpace 0xFEFF" by (simp add: isWhiteSpace_def)
    show ?thesis using Cons True by (simp add: d u sp trim_leading [OF ws])
  qed
qed

lemma for_lines_chunks:
  assumes "c = [] \<or> last c = 0x0A"
  shows "for_lines pf cb (split_nl (decode (c @ c2))) s =
         for_lines pf cb (split_nl (decode c) @ split_nl (decode c2)) s"
proof (cases "c = []")
  case True
  have "decode [] = []" by (simp add: decode_def strip_bom_def utf8_init_def)
  then show ?thesis using True by (simp add: line_step_blank)
next
  case False
  with assms obtain xs where c: "c = xs @ [0x0A]"
    by (metis append_butlast_last_id)
  obtain z where z: "decode (xs @ [0x0A]) = z @ [0x0A]"
    using decode_ends_LF by blast
  let ?X = "concat (map utf16 (utf8_run utf8_init c2))"
  have "for_lines pf cb (split_nl (decode (c @ c2))) s = for_lines pf cb (split_nl z @ split_nl ?X) s"
    using decode_after_LF [of xs c2] by (simp add: c z split_nl_LF)
  also have "\<dots> = for_lines pf cb (split_nl z @ split_nl (decode c2)) s"
    by (rule for_lines_trim) (simp add: lines_with_mark)
  also have "\<dots> = for_lines pf cb (split_nl z @ [] # split_nl (decode c2)) s"
    by (rule for_lines_skip [symmetric]) (rule line_step_blank)
  also have "\<dots> = for_lines pf cb (split_nl (decode c) @ split_nl (decode c2)) s"
    using split_nl_LF [of z "[]"] by (simp add: c z)
  finally show ?thesis .
qed

subsection \<open>Chunks cut after line feeds\<close>

lemma read_loop_as_one_chunk:
  assumes "\<forall>c\<in>set (butlast (map snd rs)). c = [] \<or> last c = 0x0A"
    and "frames_end_at_sentinel (map snd rs)"
  shows "observe (read_loop pf cb rs fin s) =
         (case for_lines pf cb (split_nl (decode (concat (map snd rs)))) s of
            (Some e, s') \<Rightarrow> (Some e, fst s', calls (snd s'))
          | (None, s') \<Rightarrow> (snd fin, fst s', calls (snd s')))"
  using assms
proof (induction rs arbitrary: s)
  case Nil
  have "decode [] = []" by (simp add: decode_def strip_bom_def utf8_init_def)
  then show ?case by (simp add: observe_def tick_def line_step_blank)
next
  case (Cons r rs)
  show ?case
  proof (cases "rs = []")
    case True
    then show ?thesis using read_loop_single [of pf cb "fst r" "snd r" fin s] by simp
  next
    case False
    let ?c = "snd r"
    let ?C = "concat (map snd rs)"
    let ?ls = "split_nl (decode ?c)"
    have al: "?c = [] \<or> last ?c = 0x0A"
      using Cons.prems(1) False by simp
    have rest_al: "\<forall>c\<in>set (butlast (map snd rs)). c = [] \<or> last c = 0x0A"
      using Cons.prems(1) False by simp
    have whole: "for_lines pf cb (split_nl (decode (?c @ ?C))) s =
                 for_lines pf cb (?ls @ split_nl (decode ?C)) s"
      by (rule for_lines_chunks [OF al])
    let ?a = "for_lines pf cb ?ls (fst s, tick (fst r) (snd s))"
    let ?b = "for_lines pf cb ?ls s"
    have v: "observe ?a = observe ?b" by (rule for_lines_tick)
    obtain e t w where a: "?a = (e, t, w)" by (cases ?a) auto
    obtain e' t' w' where b: "?b = (e', t', w')" by (cases ?b) auto
    from v a b have eq: "e' = e" "t' = t" "calls w' = calls w" by (simp_all add: observe_def)
    show ?thesis
    proof (cases "\<exists>l\<in>set ?ls. is_sentinel l")
      case True
      have nf: "\<forall>r'\<in>set rs. \<forall>l\<in>set (split_nl (decode (snd r'))). \<not> is_frame l"
        using Cons.prems(2) True by simp
      have w: "for_lines pf cb (?ls @ split_nl (decode ?C)) s = (e', t', w')"
        using for_lines_append_sentinel [OF True] b by simp
      show ?thesis
      proof (cases e)
        case None
        then show ?thesis
          using a eq read_loop_no_frames [OF nf, of pf cb fin "(t, w)"]
          by (simp add: whole w)
      next
        case (Some x)
        then show ?thesis using a eq by (simp add: whole w observe_def)
      qed
    next
      case False
      then have ns: "\<forall>l\<in>set ?ls. \<not> is_sentinel l" by blast
      have rest_fe: "frames_end_at_sentinel (map snd rs)"
        using Cons.prems(2) False by simp
      obtain s1 where s1: "?b = (None, s1)"
        and ap: "for_lines pf cb (?ls @ split_nl (decode ?C)) s =
                 for_lines pf cb (split_nl (decode ?C)) s1"
        using for_lines_append_no_sentinel [OF ns, of pf cb s] by blast
      from s1 b eq have e: "e = None" and s1': "s1 = (t', w')" by simp_all
      have ih: "observe (read_loop pf cb rs fin (t, w)) =
                (case for_lines pf cb (split_nl (decode ?C)) (t, w) of
                   (Some e, s') \<Rightarrow> (Some e, fst s', calls (snd s'))
                 | (None, s') \<Rightarrow> (snd fin, fst s', calls (snd s')))"
        by (rule Cons.IH [OF rest_al rest_fe])
      have sw: "observe (for_lines pf cb (split_nl (decode ?C)) (t, w)) =
                observe (for_lines pf cb (split_nl (decode ?C)) (t', w'))"
        by (rule for_lines_view) (simp_all add: eq)
      obtain e2 t2 w2 where r2: "for_lines pf cb (split_nl (decode ?C)) (t, w) = (e2, t2, w2)"
        by (cases "for_lines pf cb (split_nl (decode ?C)) (t, w)") auto
      obtain e3 t3 w3 where r3: "for_lines pf cb (split_nl (decode ?C)) (t', w') = (e3, t3, w3)"
        by (cases "for_lines pf cb (split_nl (decode ?C)) (t', w')") auto
      from sw r2 r3 have eq2: "e3 = e2" "t3 = t2" "calls w3 = calls w2"
        by (simp_all add: observe_def)
      show ?thesis
        using a e ih r2 r3 eq2 by (cases e2) (simp_all add: whole ap s1')
    qed
  qed
qed

text \<open>
  C1, as amended. The loop keeps no text from one read to the next, so the claim holds for
  the deliveries that cut the bytes after line feeds only: when every chunk but the last
  is empty or ends in a line feed, and no frame arrives in a chunk after the chunk of a
  sentinel, the loop ends with the same exception or none, the same text and the same
  calls of the callback as when all the bytes arrive as one chunk.
\<close>

theorem C1_chunks_cut_after_line_feeds:
  assumes "\<forall>c\<in>set (butlast (map snd rs)). c = [] \<or> last c = 0x0A"
    and "frames_end_at_sentinel (map snd rs)"
  shows "observe (read_loop pf cb rs fin s) =
         observe (read_loop pf cb [(d, concat (map snd rs))] fin s)"
  by (simp only: read_loop_as_one_chunk [OF assms] read_loop_single)

text \<open>A text frame and the sentinel, in two chunks and in one.\<close>

theorem C1_witness:
  "butlast (map snd [(5 :: real, hi_frame), (7, done_frame)]) = [hi_frame] \<and>
   last hi_frame = 0x0A \<and>
   frames_end_at_sentinel (map snd [(5 :: real, hi_frame), (7, done_frame)]) \<and>
   observe (read_loop sample_platform silent [(5, hi_frame), (7, done_frame)] (0, None) ([], world0)) =
   observe (read_loop sample_platform silent [(12, hi_frame @ done_frame)] (0, None) ([], world0))"
proof -
  have h0: "last hi_frame = 0x0A"
    by (simp add: hi_frame_def)
  have h1: "\<forall>c\<in>set (butlast (map snd [(5 :: real, hi_frame), (7, done_frame)])).
              c = [] \<or> last c = 0x0A"
    by (simp add: h0)
  have h2: "frames_end_at_sentinel (map snd [(5 :: real, hi_frame), (7, done_frame)])"
    by (simp add: lines_hi lines_done no_sentinel_hi no_sentinel_blank sentinel_done)
  show ?thesis
    using h0 h2 C1_chunks_cut_after_line_feeds [OF h1 h2,
        of sample_platform silent "(0, None)" "([], world0)" 12]
    by simp
qed

lemma loop_cut:
  "read_loop pf cb [(0, hi_head), (0, hi_tail)] (0, None) ([], w) = (None, [], w)"
  by (simp add: lines_head lines_tail line_step_no_frame not_frame_head not_frame_tail
      not_frame_blank tick_def)

lemma loop_whole:
  "read_loop sample_platform cb [(0, hi_head @ hi_tail)] (0, None) ([], w) =
     (None, asc ''Hi'', w\<lparr>calls := calls w @ [(asc ''Hi'', asc ''Hi'', False)]\<rparr>)"
  by (simp add: head_tail lines_hi step_hi line_step_blank tick_def)

text \<open>
  C1, as stated, fails. The bytes of one text frame, delivered whole and delivered cut in
  two inside \<open>data:\<close>: whole, the callback receives the text, which is the result; cut,
  neither piece is a frame, the callback is never called, and the call fails for lack of
  text.
\<close>

theorem C1_counterexample:
  "calls (snd (generateResponse Revised sample_platform
       (serving (streamed [(0, hi_head @ hi_tail)]))
       (example_args (Some (asc ''k'')) (Some silent)) world0)) = [(asc ''Hi'', asc ''Hi'', False)] \<and>
   fst (generateResponse Revised sample_platform
       (serving (streamed [(0, hi_head @ hi_tail)]))
       (example_args (Some (asc ''k'')) (Some silent)) world0) =
     Inr \<lparr>text_js = asc ''Hi'', durationMs = 100, error = None\<rparr> \<and>
   calls (snd (generateResponse Revised sample_platform
       (serving (streamed [(0, hi_head), (0, hi_tail)]))
       (example_args (Some (asc ''k'')) (Some silent)) world0)) = [] \<and>
   fst (generateResponse Revised sample_platform
       (serving (streamed [(0, hi_head), (0, hi_tail)]))
       (example_args (Some (asc ''k'')) (Some silent)) world0) =
     Inr \<lparr>text_js = text_model Revised (asc ''gemini-pro''), durationMs = 100,
          error = Some (JStr (asc ''Model not found''))\<rparr>"
  by (simp add: generateResponse_def try_block_served ok_streamed read_response_streamed
      loop_cut loop_whole trim_Hi trim_Nil world0_def tick_def empty_is_model_error
      del: read_loop.simps)
     (simp add: example_args_def)

end
